theory Spec2Isabelle
  imports Complex_Main "HOL-Library.Char_ord" "HOL-Library.List_Lexorder"
begin

section \<open>The static site build of scripts/build.py\<close>

text \<open>
  The theory follows \<^verbatim>\<open>src/scripts/build.py\<close> function by function: the helpers
  \<^verbatim>\<open>find_latest_date_folder\<close>, \<^verbatim>\<open>next_business_day\<close>, \<^verbatim>\<open>classify\<close>,
  \<^verbatim>\<open>read_csv_safe\<close>, \<^verbatim>\<open>slug\<close> and the build \<^verbatim>\<open>main\<close>.

  Conventions of the model.
  \<^item> Text is \<open>string\<close>, read as ASCII. Python's \<^verbatim>\<open>str.strip\<close>, \<^verbatim>\<open>str.lower\<close> and
    \<^verbatim>\<open>str.title\<close> are modelled by what they do to ASCII characters; every other character
    is left as it is and counts as neither white space, letter nor digit.
  \<^item> An exception is a value of \<open>error\<close>; a function that can raise returns
    \<open>error + 'a\<close>, with \<open>Inl\<close> for the exception.
  \<^item> What the standard library, pandas and the file system hand to the script (directory
    listings, parsed CSV frames, rounding of floats) is an input of the model.
\<close>

subsection \<open>Exceptions\<close>

datatype error =
    SystemExit string
  | ValueError
  | TypeError
  | KeyError
  | OverflowError
  | ZeroDivisionError
  | NotADirectoryError
  | ReadError

subsection \<open>Characters and the string methods the script calls\<close>

definition is_space :: "char \<Rightarrow> bool" where
  \<comment> \<open>the ASCII characters \<^verbatim>\<open>str.strip()\<close> removes: TAB, LF, VT, FF, CR, FS, GS, RS, US, space\<close>
  "is_space c = (let n = (of_char c :: nat) in (9 \<le> n \<and> n \<le> 13) \<or> (28 \<le> n \<and> n \<le> 32))"

definition is_upper :: "char \<Rightarrow> bool" where
  "is_upper c = (let n = (of_char c :: nat) in 65 \<le> n \<and> n \<le> 90)"

definition is_lower :: "char \<Rightarrow> bool" where
  "is_lower c = (let n = (of_char c :: nat) in 97 \<le> n \<and> n \<le> 122)"

definition is_digit :: "char \<Rightarrow> bool" where
  "is_digit c = (let n = (of_char c :: nat) in 48 \<le> n \<and> n \<le> 57)"

definition lower_char :: "char \<Rightarrow> char" where
  "lower_char c = (if is_upper c then char_of (of_char c + (32::nat)) else c)"

definition upper_char :: "char \<Rightarrow> char" where
  "upper_char c = (if is_lower c then char_of (of_char c - (32::nat)) else c)"

definition py_lower :: "string \<Rightarrow> string" where
  \<comment> \<open>\<^verbatim>\<open>s.lower()\<close>\<close>
  "py_lower s = map lower_char s"

definition strip_by :: "(char \<Rightarrow> bool) \<Rightarrow> string \<Rightarrow> string" where
  \<comment> \<open>drop the characters satisfying \<open>P\<close> from both ends\<close>
  "strip_by P s = rev (dropWhile P (rev (dropWhile P s)))"

definition py_strip :: "string \<Rightarrow> string" where
  \<comment> \<open>\<^verbatim>\<open>s.strip()\<close>\<close>
  "py_strip s = strip_by is_space s"

definition py_rstrip :: "string \<Rightarrow> string \<Rightarrow> string" where
  \<comment> \<open>\<^verbatim>\<open>s.rstrip(chars)\<close>\<close>
  "py_rstrip chars s = rev (dropWhile (\<lambda>c. c \<in> set chars) (rev s))"

fun title_from :: "bool \<Rightarrow> string \<Rightarrow> string" where
  \<comment> \<open>\<^verbatim>\<open>s.title()\<close>: a letter after a letter is lower-cased, any other letter upper-cased;
      the flag says whether the previous character was a letter\<close>
  "title_from prev [] = []"
| "title_from prev (c # cs) =
     (if is_upper c \<or> is_lower c
      then (if prev then lower_char c else upper_char c) # title_from True cs
      else c # title_from False cs)"

definition py_title :: "string \<Rightarrow> string" where
  "py_title s = title_from False s"

definition py_replace_char :: "char \<Rightarrow> char \<Rightarrow> string \<Rightarrow> string" where
  \<comment> \<open>\<^verbatim>\<open>s.replace(a, b)\<close> for one-character \<open>a\<close> and \<open>b\<close>\<close>
  "py_replace_char a b s = map (\<lambda>c. if c = a then b else c) s"

subsection \<open>slug\<close>

text \<open>
  \<^verbatim>\<open>
  def slug(s: str):
      s = (s or "").strip().lower()
      s = re.sub(r"[^a-z0-9]+", "-", s)
      return s.strip("-") or "stock"
  \<close>
  For a string \<open>s\<close>, \<^verbatim>\<open>s or ""\<close> is \<open>s\<close>. The substitution replaces every maximal run of
  characters outside \<^verbatim>\<open>[a-z0-9]\<close> by one hyphen.
\<close>

definition is_slug_char :: "char \<Rightarrow> bool" where
  \<comment> \<open>the character class \<^verbatim>\<open>[a-z0-9]\<close>\<close>
  "is_slug_char c = (is_lower c \<or> is_digit c)"

function re_sub_runs :: "string \<Rightarrow> string" where
  "re_sub_runs [] = []"
| "re_sub_runs (c # cs) =
     (if is_slug_char c then c # re_sub_runs cs
      else CHR ''-'' # re_sub_runs (dropWhile (\<lambda>x. \<not> is_slug_char x) cs))"
  by pat_completeness auto
termination
  by (relation "measure length") (auto simp: le_imp_less_Suc length_dropWhile_le)

definition slug :: "string \<Rightarrow> string" where
  "slug s =
     (let s1 = py_lower (py_strip s);
          s2 = re_sub_runs s1;
          s3 = strip_by (\<lambda>c. c \<in> set ''-'') s2
      in if s3 = [] then ''stock'' else s3)"





fun slug_shaped :: "string \<Rightarrow> bool" where
  \<comment> \<open>only \<^verbatim>\<open>[a-z0-9]\<close> and hyphens, and a hyphen is followed by nothing or by \<^verbatim>\<open>[a-z0-9]\<close>\<close>
  "slug_shaped [] = True"
| "slug_shaped (c # cs) =
     ((is_slug_char c \<or> (c = CHR ''-'' \<and> (cs = [] \<or> is_slug_char (hd cs)))) \<and> slug_shaped cs)"

subsection \<open>Calendar dates\<close>

text \<open>
  A \<^verbatim>\<open>datetime.date\<close> is modelled by its proleptic Gregorian ordinal
  (\<^verbatim>\<open>date.toordinal()\<close>: day 1 is 0001-01-01, a Monday), the number on which the library
  defines \<^verbatim>\<open>weekday()\<close> and the addition of a \<^verbatim>\<open>timedelta\<close>, and whose order is the
  order of dates. The type holds the dates 0001-01-01 to 9999-12-31, ordinals 1 to
  3652059; an addition that leaves this range raises \<^verbatim>\<open>OverflowError\<close>.
\<close>

datatype date = Date (toordinal: int)

definition MAXORDINAL :: int where
  "MAXORDINAL = 3652059"

definition valid_date :: "date \<Rightarrow> bool" where
  "valid_date d = (1 \<le> toordinal d \<and> toordinal d \<le> MAXORDINAL)"

definition weekday :: "date \<Rightarrow> int" where
  \<comment> \<open>Monday is 0, Sunday is 6\<close>
  "weekday d = (toordinal d + 6) mod 7"

definition add_days :: "date \<Rightarrow> int \<Rightarrow> error + date" where
  \<comment> \<open>\<^verbatim>\<open>d + datetime.timedelta(days=n)\<close>\<close>
  "add_days d n =
     (let k = toordinal d + n
      in if 0 < k \<and> k \<le> MAXORDINAL then Inr (Date k) else Inl OverflowError)"

definition is_leap :: "int \<Rightarrow> bool" where
  "is_leap y = (y mod 4 = 0 \<and> (y mod 100 \<noteq> 0 \<or> y mod 400 = 0))"

definition days_in_month :: "int \<Rightarrow> int \<Rightarrow> int" where
  "days_in_month y m =
     (if m = 2 \<and> is_leap y then 29
      else [31, 28, 31, 30, 31, 30, 31, 31, 30, 31, 30, 31] ! nat (m - 1))"

definition days_before_year :: "int \<Rightarrow> int" where
  "days_before_year year =
     (let y = year - 1 in y * 365 + y div 4 - y div 100 + y div 400)"

definition days_before_month :: "int \<Rightarrow> int \<Rightarrow> int" where
  "days_before_month y m =
     [0, 31, 59, 90, 120, 151, 181, 212, 243, 273, 304, 334] ! nat (m - 1)
     + (if m > 2 \<and> is_leap y then 1 else 0)"

definition ymd2ord :: "int \<Rightarrow> int \<Rightarrow> int \<Rightarrow> int" where
  "ymd2ord y m d = days_before_year y + days_before_month y m + d"

text \<open>
  The library keeps a date as year, month and day and compares dates in that order;
  \<open>ymd2ord\<close> is its \<^verbatim>\<open>_ymd2ord\<close>. That the ordinals of valid dates are ordered as the
  dates are, and lie in the range of the type, is proved below.
\<close>

definition valid_ymd :: "int \<Rightarrow> int \<Rightarrow> int \<Rightarrow> bool" where
  "valid_ymd y m d = (1 \<le> y \<and> 1 \<le> m \<and> m \<le> 12 \<and> 1 \<le> d \<and> d \<le> days_in_month y m)"

definition ymd_less :: "int \<times> int \<times> int \<Rightarrow> int \<times> int \<times> int \<Rightarrow> bool" where
  \<comment> \<open>the order in which Python compares dates: year, then month, then day\<close>
  "ymd_less a b =
     (fst a < fst b
      \<or> (fst a = fst b \<and> (fst (snd a) < fst (snd b)
            \<or> (fst (snd a) = fst (snd b) \<and> snd (snd a) < snd (snd b)))))"

definition days_in_year :: "int \<Rightarrow> int" where
  "days_in_year y = (if is_leap y then 366 else 365)"

subsection \<open>next\_business\_day\<close>

text \<open>
  \<^verbatim>\<open>
  def next_business_day(d: datetime.date):
      wd = d.weekday()
      if wd == 4:  # Fri
          return d + datetime.timedelta(days=3)
      if wd == 5:  # Sat
          return d + datetime.timedelta(days=2)
      return d + datetime.timedelta(days=1)
  \<close>
\<close>

definition next_business_day :: "date \<Rightarrow> error + date" where
  "next_business_day d =
     (let wd = weekday d
      in if wd = 4 then add_days d 3
         else if wd = 5 then add_days d 2
         else add_days d 1)"

subsection \<open>Parsing the name of a dated folder\<close>

definition is_dated_name :: "string \<Rightarrow> bool" where
  \<comment> \<open>two digits, a dot, two digits, a dot, four digits, and nothing else\<close>
  "is_dated_name s =
     (length s = 10
      \<and> list_all is_digit (take 2 s) \<and> s ! 2 = CHR ''.''
      \<and> list_all is_digit (take 2 (drop 3 s)) \<and> s ! 5 = CHR ''.''
      \<and> list_all is_digit (drop 6 s))"

definition re_match_dated :: "string \<Rightarrow> bool" where
  \<comment> \<open>\<^verbatim>\<open>re.match(r"^\d{2}\.\d{2}\.\d{4}$", name)\<close>: the \<^verbatim>\<open>$\<close> also matches before a
      final line feed\<close>
  "re_match_dated name =
     (is_dated_name name
      \<or> (name \<noteq> [] \<and> last name = CHR 0x0A \<and> is_dated_name (butlast name)))"

definition dec_val :: "string \<Rightarrow> int" where
  "dec_val ds = foldl (\<lambda>a c. 10 * a + (int (of_char c) - 48)) 0 ds"

definition strptime :: "string \<Rightarrow> error + date" where
  \<comment> \<open>\<^verbatim>\<open>datetime.datetime.strptime(name, "%d.%m.%Y").date()\<close>: \<^verbatim>\<open>ValueError\<close> when the text
      is not of the format or is not a date of the calendar\<close>
  "strptime name =
     (if is_dated_name name then
        (let d = dec_val (take 2 name);
             m = dec_val (take 2 (drop 3 name));
             y = dec_val (drop 6 name)
         in if 1 \<le> y \<and> 1 \<le> m \<and> m \<le> 12 \<and> 1 \<le> d \<and> d \<le> days_in_month y m
            then Inr (Date (ymd2ord y m d))
            else Inl ValueError)
      else Inl ValueError)"

subsection \<open>Floats\<close>

text \<open>
  A Python float is a finite real, an infinity or NaN. The two zeros are one value: the
  script never tells them apart. Rounding to the nearest double is the parameter \<open>r\<close> of
  every operation that rounds; the properties proved of the script hold for every \<open>r\<close>
  that is monotone, maps zero to zero and fixes its own values (predicate \<open>rounding\<close>), as
  IEEE 754 rounding to nearest does, overflow to an infinity included.
\<close>

datatype pyfloat = Fin real | PInf | NInf | NaN

type_synonym rounder = "real \<Rightarrow> pyfloat"

fun flt :: "pyfloat \<Rightarrow> pyfloat \<Rightarrow> bool" where
  \<comment> \<open>\<^verbatim>\<open>a < b\<close>: false as soon as one side is NaN\<close>
  "flt NaN b = False"
| "flt a NaN = False"
| "flt (Fin x) (Fin y) = (x < y)"
| "flt a NInf = False"
| "flt PInf b = False"
| "flt NInf b = True"
| "flt (Fin x) PInf = True"

definition fle :: "pyfloat \<Rightarrow> pyfloat \<Rightarrow> bool" where
  \<comment> \<open>\<^verbatim>\<open>a <= b\<close>\<close>
  "fle a b = (flt a b \<or> (a = b \<and> a \<noteq> NaN))"

definition py_max :: "pyfloat \<Rightarrow> pyfloat \<Rightarrow> pyfloat" where
  \<comment> \<open>\<^verbatim>\<open>max(a, b)\<close> keeps \<open>a\<close> unless \<^verbatim>\<open>b > a\<close>\<close>
  "py_max a b = (if flt a b then b else a)"

definition py_min :: "pyfloat \<Rightarrow> pyfloat \<Rightarrow> pyfloat" where
  \<comment> \<open>\<^verbatim>\<open>min(a, b)\<close> keeps \<open>a\<close> unless \<^verbatim>\<open>b < a\<close>\<close>
  "py_min a b = (if flt b a then b else a)"

fun fneg :: "pyfloat \<Rightarrow> pyfloat" where
  "fneg (Fin x) = Fin (- x)"
| "fneg PInf = NInf"
| "fneg NInf = PInf"
| "fneg NaN = NaN"

fun fabs :: "pyfloat \<Rightarrow> pyfloat" where
  \<comment> \<open>\<^verbatim>\<open>abs(a)\<close>\<close>
  "fabs (Fin x) = Fin \<bar>x\<bar>"
| "fabs PInf = PInf"
| "fabs NInf = PInf"
| "fabs NaN = NaN"

fun fadd :: "rounder \<Rightarrow> pyfloat \<Rightarrow> pyfloat \<Rightarrow> pyfloat" where
  \<comment> \<open>\<^verbatim>\<open>a + b\<close>\<close>
  "fadd r NaN b = NaN"
| "fadd r a NaN = NaN"
| "fadd r (Fin x) (Fin y) = r (x + y)"
| "fadd r PInf NInf = NaN"
| "fadd r NInf PInf = NaN"
| "fadd r PInf b = PInf"
| "fadd r NInf b = NInf"
| "fadd r (Fin x) b = b"

definition fsub :: "rounder \<Rightarrow> pyfloat \<Rightarrow> pyfloat \<Rightarrow> pyfloat" where
  \<comment> \<open>\<^verbatim>\<open>a - b\<close>\<close>
  "fsub r a b = fadd r a (fneg b)"

fun fdiv :: "rounder \<Rightarrow> pyfloat \<Rightarrow> pyfloat \<Rightarrow> error + pyfloat" where
  \<comment> \<open>\<^verbatim>\<open>a / b\<close>: a zero divisor raises, whatever the dividend\<close>
  "fdiv r a (Fin y) =
     (if y = 0 then Inl ZeroDivisionError
      else case a of
             Fin x \<Rightarrow> Inr (r (x / y))
           | PInf \<Rightarrow> Inr (if 0 < y then PInf else NInf)
           | NInf \<Rightarrow> Inr (if 0 < y then NInf else PInf)
           | NaN \<Rightarrow> Inr NaN)"
| "fdiv r (Fin x) b = Inr (case b of NaN \<Rightarrow> NaN | _ \<Rightarrow> Fin 0)"
| "fdiv r a b = Inr NaN"

definition rounding :: "rounder \<Rightarrow> bool" where
  "rounding r =
     ((\<forall>x y. x \<le> y \<longrightarrow> fle (r x) (r y))
      \<and> r 0 = Fin 0
      \<and> (\<forall>x y. r x = Fin y \<longrightarrow> r y = Fin y))"

subsection \<open>classify\<close>

text \<open>
  \<^verbatim>\<open>
  def classify(o,h,l,c):
      rng = max(h,l) - min(h,l)
      body = abs(c-o)
      if rng <= 0: return "Sideways", 0.5, "No range"
      ratio = body/rng
      if ratio < 0.2: return "Sideways", 0.5, "Small body vs range - indecision"
      if c > o: return "Bullish", min(0.9, 0.6 + ratio/2), "Close above open"
      if c < o: return "Bearish", min(0.9, 0.6 + ratio/2), "Close below open"
      return "Sideways", 0.5, "Flat"
  \<close>
  (the dash of the second reason is an em dash in the source). A decimal literal is the
  rounding of its value.
\<close>

definition em_dash :: string where
  \<comment> \<open>U+2014 in UTF-8\<close>
  "em_dash = [CHR 0xE2, CHR 0x80, CHR 0x94]"

definition confidence :: "rounder \<Rightarrow> pyfloat \<Rightarrow> error + pyfloat" where
  \<comment> \<open>\<^verbatim>\<open>min(0.9, 0.6 + ratio/2)\<close>\<close>
  "confidence r ratio =
     (case fdiv r ratio (Fin 2) of
        Inl e \<Rightarrow> Inl e
      | Inr half \<Rightarrow> Inr (py_min (r (9/10)) (fadd r (r (3/5)) half)))"

definition classify ::
  "rounder \<Rightarrow> pyfloat \<Rightarrow> pyfloat \<Rightarrow> pyfloat \<Rightarrow> pyfloat \<Rightarrow> error + (string \<times> pyfloat \<times> string)" where
  "classify r opn hi lo cl =
     (let rng = fsub r (py_max hi lo) (py_min hi lo);
          body = fabs (fsub r cl opn)
      in if fle rng (Fin 0) then Inr (''Sideways'', r (1/2), ''No range'')
         else case fdiv r body rng of
                Inl e \<Rightarrow> Inl e
              | Inr ratio \<Rightarrow>
                  if flt ratio (r (1/5))
                  then Inr (''Sideways'', r (1/2),
                            ''Small body vs range '' @ em_dash @ '' indecision'')
                  else if flt opn cl
                  then (case confidence r ratio of
                          Inl e \<Rightarrow> Inl e
                        | Inr conf \<Rightarrow> Inr (''Bullish'', conf, ''Close above open''))
                  else if flt cl opn
                  then (case confidence r ratio of
                          Inl e \<Rightarrow> Inl e
                        | Inr conf \<Rightarrow> Inr (''Bearish'', conf, ''Close below open''))
                  else Inr (''Sideways'', r (1/2), ''Flat''))"

subsection \<open>Parsed CSV files\<close>

text \<open>
  \<^verbatim>\<open>pd.read_csv\<close> is pandas: the model takes its result for each file, a frame of named
  columns and rows of cells, or the exception it raised. A cell is what \<^verbatim>\<open>row[c]\<close>
  yields in the row loop: a float (NaN for an empty field), an integer, a boolean, text,
  or \<^verbatim>\<open>None\<close> (which only \<^verbatim>\<open>read_csv_safe\<close> puts there). Every row of a frame has one cell
  per column (\<open>rectangular\<close>).
\<close>

datatype cell = CFloat pyfloat | CInt int | CBool bool | CStr string | CNone

record data_frame =
  df_columns :: "string list"
  df_rows :: "cell list list"


record csv_file =
  csv_name :: string
  csv_read :: "error + data_frame"

text \<open>
  \<^verbatim>\<open>row[c]\<close> on a row labelled by the frame's columns: \<^verbatim>\<open>KeyError\<close> when no column has the
  label, the cell when one has, and a Series of the cells when several have (two headers
  can become equal once trimmed and lower-cased).
\<close>

datatype lookup = Scalar cell | Series "cell list"

definition row_get :: "string list \<Rightarrow> cell list \<Rightarrow> string \<Rightarrow> error + lookup" where
  "row_get cols row c =
     (case map snd (filter (\<lambda>kv. fst kv = c) (zip cols row)) of
        [] \<Rightarrow> Inl KeyError
      | [v] \<Rightarrow> Inr (Scalar v)
      | vs \<Rightarrow> Inr (Series vs))"

text \<open>
  The library functions the row loop applies to a cell. Their parts that are not fixed
  by the script are fields of \<open>pylib\<close>: rounding, \<^verbatim>\<open>float\<close> of a text, \<^verbatim>\<open>str\<close> of a finite
  float, of an integer and of a Series.
\<close>

record pylib =
  rnd :: rounder
  float_of_text :: "string \<Rightarrow> pyfloat option"
  str_of_real :: "real \<Rightarrow> string"
  str_of_int :: "int \<Rightarrow> string"
  str_of_series :: "cell list \<Rightarrow> string"

fun py_float :: "pylib \<Rightarrow> lookup \<Rightarrow> error + pyfloat" where
  \<comment> \<open>\<^verbatim>\<open>float(v)\<close>\<close>
  "py_float lib (Scalar (CFloat f)) = Inr f"
| "py_float lib (Scalar (CInt i)) = Inr (rnd lib (real_of_int i))"
| "py_float lib (Scalar (CBool b)) = Inr (Fin (if b then 1 else 0))"
| "py_float lib (Scalar (CStr s)) =
     (case float_of_text lib s of None \<Rightarrow> Inl ValueError | Some f \<Rightarrow> Inr f)"
| "py_float lib (Scalar CNone) = Inl TypeError"
| "py_float lib (Series vs) = Inl TypeError"

fun py_str :: "pylib \<Rightarrow> lookup \<Rightarrow> string" where
  \<comment> \<open>\<^verbatim>\<open>str(v)\<close>\<close>
  "py_str lib (Scalar (CStr s)) = s"
| "py_str lib (Scalar CNone) = ''None''"
| "py_str lib (Scalar (CBool b)) = (if b then ''True'' else ''False'')"
| "py_str lib (Scalar (CInt i)) = str_of_int lib i"
| "py_str lib (Scalar (CFloat NaN)) = ''nan''"
| "py_str lib (Scalar (CFloat PInf)) = ''inf''"
| "py_str lib (Scalar (CFloat NInf)) = ''-inf''"
| "py_str lib (Scalar (CFloat (Fin x))) = str_of_real lib x"
| "py_str lib (Series vs) = str_of_series lib vs"

subsection \<open>read\_csv\_safe\<close>

text \<open>
  \<^verbatim>\<open>
  def read_csv_safe(p: Path):
      df = pd.read_csv(p, low_memory=False)
      cols = {c: c.strip().lower() for c in df.columns}
      df = df.rename(columns=cols)
      for c in ["symbol","description","exchange","sector","industry","open","high","low","close"]:
          if c not in df.columns:
              df[c] = "" if c not in ["open","high","low","close"] else None
      return df
  \<close>
\<close>

definition expected_columns :: "string list" where
  "expected_columns =
     [''symbol'', ''description'', ''exchange'', ''sector'', ''industry'',
      ''open'', ''high'', ''low'', ''close'']"

definition numeric_columns :: "string list" where
  "numeric_columns = [''open'', ''high'', ''low'', ''close'']"

definition default_cell :: "string \<Rightarrow> cell" where
  "default_cell c = (if c \<notin> set numeric_columns then CStr '''' else CNone)"

definition add_column :: "string \<Rightarrow> cell \<Rightarrow> data_frame \<Rightarrow> data_frame" where
  \<comment> \<open>\<^verbatim>\<open>df[c] = v\<close> for a label that is not a column yet\<close>
  "add_column c v df =
     df\<lparr>df_columns := df_columns df @ [c], df_rows := map (\<lambda>row. row @ [v]) (df_rows df)\<rparr>"

fun add_missing :: "string list \<Rightarrow> data_frame \<Rightarrow> data_frame" where
  "add_missing [] df = df"
| "add_missing (c # cs) df =
     add_missing cs (if c \<notin> set (df_columns df) then add_column c (default_cell c) df else df)"

definition rename_columns :: "data_frame \<Rightarrow> data_frame" where
  "rename_columns df = df\<lparr>df_columns := map (\<lambda>c. py_lower (py_strip c)) (df_columns df)\<rparr>"

definition read_csv_safe :: "csv_file \<Rightarrow> error + data_frame" where
  "read_csv_safe p =
     (case csv_read p of
        Inl e \<Rightarrow> Inl e
      | Inr df \<Rightarrow> Inr (add_missing expected_columns (rename_columns df)))"

subsection \<open>The input tree and find\_latest\_date\_folder\<close>

text \<open>
  The directory \<^verbatim>\<open>Data/\<close> as the script meets it: absent, something that is not a
  directory, or a listing (\<^verbatim>\<open>iterdir\<close>, in the order the file system gives). An entry of
  it is a plain file or a folder with its own listing; an entry of a dated folder is a
  plain file or a region directory with its entries, each a name with what
  \<^verbatim>\<open>pd.read_csv\<close> returns for it; \<^verbatim>\<open>glob("*.csv")\<close> keeps the entries whose name ends in
  \<^verbatim>\<open>.csv\<close>.

  \<^verbatim>\<open>
  def find_latest_date_folder():
      if not DATA_DIR.exists():
          raise SystemExit("Missing Data/ directory at repo root.")
      candidates = []
      for p in DATA_DIR.iterdir():
          if p.is_dir() and re.match(r"^\d{2}\.\d{2}\.\d{4}$", p.name):
              d = datetime.datetime.strptime(p.name, "%d.%m.%Y").date()
              candidates.append((d, p))
      if not candidates:
          raise SystemExit("No dated folder like DD.MM.YYYY inside Data/.")
      candidates.sort(key=lambda x: x[0], reverse=True)
      return candidates[0][1], candidates[0][0]
  \<close>
\<close>

datatype region_node = RegionFile | RegionDir "csv_file list"

datatype data_node = DataFile | DataFolder "(string \<times> region_node) list"

datatype data_dir = Absent | NotADir | Listing "(string \<times> data_node) list"

fun is_folder :: "data_node \<Rightarrow> bool" where
  "is_folder DataFile = False"
| "is_folder (DataFolder es) = True"

fun iterdir :: "data_node \<Rightarrow> (string \<times> region_node) list" where
  "iterdir DataFile = []"
| "iterdir (DataFolder es) = es"

definition missing_data_msg :: string where
  "missing_data_msg = ''Missing Data/ directory at repo root.''"

definition no_dated_folder_msg :: string where
  "no_dated_folder_msg = ''No dated folder like DD.MM.YYYY inside Data/.''"

fun candidates_of ::
  "(string \<times> data_node) list \<Rightarrow> error + (date \<times> string \<times> data_node) list" where
  "candidates_of [] = Inr []"
| "candidates_of (p # ps) =
     (if is_folder (snd p) \<and> re_match_dated (fst p) then
        (case strptime (fst p) of
           Inl e \<Rightarrow> Inl e
         | Inr d \<Rightarrow>
             (case candidates_of ps of
                Inl e \<Rightarrow> Inl e
              | Inr cs \<Rightarrow> Inr ((d, p) # cs)))
      else candidates_of ps)"

definition sort_latest_first ::
  "(date \<times> string \<times> data_node) list \<Rightarrow> (date \<times> string \<times> data_node) list" where
  \<comment> \<open>\<^verbatim>\<open>sort(key=lambda x: x[0], reverse=True)\<close>: descending and stable\<close>
  "sort_latest_first cs = sort_key (\<lambda>x. - toordinal (fst x)) cs"

definition find_latest_date_folder :: "data_dir \<Rightarrow> error + ((string \<times> data_node) \<times> date)" where
  "find_latest_date_folder dd =
     (case dd of
        Absent \<Rightarrow> Inl (SystemExit missing_data_msg)
      | NotADir \<Rightarrow> Inl NotADirectoryError
      | Listing ps \<Rightarrow>
          (case candidates_of ps of
             Inl e \<Rightarrow> Inl e
           | Inr cs \<Rightarrow>
               if cs = [] then Inl (SystemExit no_dated_folder_msg)
               else (let best = hd (sort_latest_first cs) in Inr (snd best, fst best))))"




subsection \<open>Pages and the output tree\<close>

text \<open>
  The markup of the templates is not modelled. A page is the four arguments of
  \<^verbatim>\<open>tpl_base(title, description, body, canonical)\<close>, and a body is the values that the
  script interpolates into its markup: the links of the home and region pages, the rows
  of a country table, the card of a stock. The other files are text.

  The output directory \<^verbatim>\<open>dist/\<close> is a list of files, each a path below \<^verbatim>\<open>dist/\<close> (the list
  of its components) with its content, in the order of creation; directories are
  implicit. Writing a file replaces the content at an existing path, and always succeeds:
  the limits and failures of a real file system are not modelled.
\<close>

record table_row =
  tr_href :: string
  tr_sym :: string
  tr_name :: string
  tr_exch :: string
  tr_sec :: string
  tr_ind :: string
  tr_close :: "pyfloat option"
  tr_sig :: string

record stock_card =
  sc_name :: string
  sc_sym :: string
  sc_region :: string
  sc_country :: string
  sc_exch :: string
  sc_session :: date
  sc_ohlc :: "pyfloat \<times> pyfloat \<times> pyfloat \<times> pyfloat"
  sc_pred :: date
  sc_sig :: string
  sc_reason :: string
  sc_conf :: pyfloat

datatype body =
    HomeBody "(string \<times> string) list"
  | RegionBody string "(string \<times> string) list"
  | CountryBody string "table_row list"
  | StockBody stock_card

record page =
  pg_title :: string
  pg_description :: string
  pg_body :: body
  pg_canonical :: string

datatype content = Html page | Text string

type_synonym path = "string list"

type_synonym tree = "(path \<times> content) list"

fun write_file :: "path \<Rightarrow> content \<Rightarrow> tree \<Rightarrow> tree" where
  "write_file p c [] = [(p, c)]"
| "write_file p c (f # fs) =
     (if fst f = p then (p, c) # fs else f # write_file p c fs)"

definition tpl_base :: "string \<Rightarrow> string \<Rightarrow> body \<Rightarrow> string \<Rightarrow> content" where
  "tpl_base title description bdy canonical =
     Html \<lparr>pg_title = title, pg_description = description, pg_body = bdy,
           pg_canonical = canonical\<rparr>"

definition write_html :: "path \<Rightarrow> content \<Rightarrow> tree \<Rightarrow> tree" where
  \<comment> \<open>\<^verbatim>\<open>path.parent.mkdir(parents=True, exist_ok=True); path.write_text(html)\<close>\<close>
  "write_html p html t = write_file p html t"

subsection \<open>Configuration\<close>

record config =
  base_url :: string
  site_title :: string
  site_tagline :: string

definition BASE_URL :: "config \<Rightarrow> string" where
  \<comment> \<open>\<^verbatim>\<open>CFG.get("base_url", "").rstrip("/")\<close>\<close>
  "BASE_URL cfg = py_rstrip ''/'' (base_url cfg)"

subsection \<open>main: one row of a country file\<close>

text \<open>
  \<^verbatim>\<open>
  for _, row in df.iterrows():
      try:
          o = float(row["open"]); h = float(row["high"]); l = float(row["low"]); c = float(row["close"])
      except Exception:
          o = h = l = c = None
      sig, conf, reason = ("", 0, "")
      if None not in (o, h, l, c):
          sig, conf, reason = classify(o, h, l, c)
      sym = str(row["symbol"]).strip()
      name = str(row["description"]).strip() or sym
      exch = str(row["exchange"]).strip()
      sec  = str(row["sector"]).strip()
      ind  = str(row["industry"]).strip()
      s_slug = slug(name or sym)
      if None not in (o, h, l, c):
          pred = next_business_day(date_obj)
          body = ...
          write_html(DIST / r_slug / c_slug / s_slug / "index.html",
                     tpl_base(f"{name} prediction tomorrow - {CFG.get('site_title','')}",
                              f"{name} ({sym}) next-day prediction and OHLC snapshot.",
                              body, f"{BASE_URL}/{r_slug}/{c_slug}/{s_slug}/"))
      rows_html.append(...)
  \<close>
  The four conversions either all succeed or the four variables are all \<^verbatim>\<open>None\<close>: the
  model keeps the quadruple as an option.
\<close>

record country_ctx =
  cx_lib :: pylib
  cx_cfg :: config
  cx_date :: date
  cx_region :: string
  cx_r_slug :: string
  cx_country :: string
  cx_c_slug :: string
  cx_columns :: "string list"

definition float_field :: "pylib \<Rightarrow> string list \<Rightarrow> cell list \<Rightarrow> string \<Rightarrow> error + pyfloat" where
  \<comment> \<open>\<^verbatim>\<open>float(row[c])\<close>\<close>
  "float_field lib cols row c =
     (case row_get cols row c of Inl e \<Rightarrow> Inl e | Inr v \<Rightarrow> py_float lib v)"

definition text_field :: "pylib \<Rightarrow> string list \<Rightarrow> cell list \<Rightarrow> string \<Rightarrow> error + string" where
  \<comment> \<open>\<^verbatim>\<open>str(row[c]).strip()\<close>\<close>
  "text_field lib cols row c =
     (case row_get cols row c of Inl e \<Rightarrow> Inl e | Inr v \<Rightarrow> Inr (py_strip (py_str lib v)))"

definition read_ohlc ::
  "pylib \<Rightarrow> string list \<Rightarrow> cell list \<Rightarrow> (pyfloat \<times> pyfloat \<times> pyfloat \<times> pyfloat) option" where
  "read_ohlc lib cols row =
     (case float_field lib cols row ''open'' of Inl e \<Rightarrow> None | Inr opn \<Rightarrow>
      case float_field lib cols row ''high'' of Inl e \<Rightarrow> None | Inr hi \<Rightarrow>
      case float_field lib cols row ''low'' of Inl e \<Rightarrow> None | Inr lo \<Rightarrow>
      case float_field lib cols row ''close'' of Inl e \<Rightarrow> None | Inr cl \<Rightarrow>
      Some (opn, hi, lo, cl))"

definition classify_row ::
  "pylib \<Rightarrow> (pyfloat \<times> pyfloat \<times> pyfloat \<times> pyfloat) option
   \<Rightarrow> error + (string \<times> pyfloat \<times> string)" where
  "classify_row lib ohlc =
     (case ohlc of
        None \<Rightarrow> Inr ('''', Fin 0, '''')
      | Some (opn, hi, lo, cl) \<Rightarrow> classify (rnd lib) opn hi lo cl)"

definition stock_path :: "country_ctx \<Rightarrow> string \<Rightarrow> path" where
  "stock_path cx s_slug = [cx_r_slug cx, cx_c_slug cx, s_slug, ''index.html'']"

definition stock_url :: "country_ctx \<Rightarrow> string \<Rightarrow> string" where
  \<comment> \<open>\<^verbatim>\<open>f"{BASE_URL}/{r_slug}/{c_slug}/{s_slug}/"\<close>\<close>
  "stock_url cx s_slug =
     BASE_URL (cx_cfg cx) @ ''/'' @ cx_r_slug cx @ ''/'' @ cx_c_slug cx @ ''/'' @ s_slug @ ''/''"

definition process_row ::
  "country_ctx \<Rightarrow> cell list \<Rightarrow> tree \<times> table_row list \<Rightarrow> error + (tree \<times> table_row list)" where
  "process_row cx row st =
     (let lib = cx_lib cx; cols = cx_columns cx;
          ohlc = read_ohlc lib cols row
      in case classify_row lib ohlc of Inl e \<Rightarrow> Inl e | Inr (sig, conf, reason) \<Rightarrow>
         case text_field lib cols row ''symbol'' of Inl e \<Rightarrow> Inl e | Inr symb \<Rightarrow>
         case text_field lib cols row ''description'' of Inl e \<Rightarrow> Inl e | Inr descr \<Rightarrow>
         case text_field lib cols row ''exchange'' of Inl e \<Rightarrow> Inl e | Inr exch \<Rightarrow>
         case text_field lib cols row ''sector'' of Inl e \<Rightarrow> Inl e | Inr sec \<Rightarrow>
         case text_field lib cols row ''industry'' of Inl e \<Rightarrow> Inl e | Inr ind \<Rightarrow>
         (let name = (if descr = [] then symb else descr);
              s_slug = slug (if name = [] then symb else name);
              written =
                (case ohlc of
                   None \<Rightarrow> Inr (fst st)
                 | Some q \<Rightarrow>
                     (case next_business_day (cx_date cx) of
                        Inl e \<Rightarrow> Inl e
                      | Inr pred \<Rightarrow>
                          Inr (write_html (stock_path cx s_slug)
                                 (tpl_base
                                    (name @ '' prediction tomorrow '' @ em_dash @ '' ''
                                       @ site_title (cx_cfg cx))
                                    (name @ '' ('' @ symb
                                       @ '') next-day prediction and OHLC snapshot.'')
                                    (StockBody
                                       \<lparr>sc_name = name, sc_sym = symb,
                                        sc_region = cx_region cx, sc_country = cx_country cx,
                                        sc_exch = exch, sc_session = cx_date cx, sc_ohlc = q,
                                        sc_pred = pred, sc_sig = sig, sc_reason = reason,
                                        sc_conf = conf\<rparr>)
                                    (stock_url cx s_slug))
                                 (fst st))))
          in case written of
               Inl e \<Rightarrow> Inl e
             | Inr out \<Rightarrow>
                 Inr (out,
                      snd st @
                      [\<lparr>tr_href = stock_url cx s_slug @ ''index.html'', tr_sym = symb,
                        tr_name = name, tr_exch = exch, tr_sec = sec, tr_ind = ind,
                        tr_close = map_option (\<lambda>q. snd (snd (snd q))) ohlc,
                        tr_sig = sig\<rparr>])))"

fun build_rows ::
  "country_ctx \<Rightarrow> cell list list \<Rightarrow> tree \<times> table_row list \<Rightarrow> error + (tree \<times> table_row list)" where
  "build_rows cx [] st = Inr st"
| "build_rows cx (row # rows) st =
     (case process_row cx row st of Inl e \<Rightarrow> Inl e | Inr st' \<Rightarrow> build_rows cx rows st')"

subsection \<open>main: countries and regions\<close>

text \<open>
  \<^verbatim>\<open>
  for csv in sorted([p for p in region.glob("*.csv")], key=lambda x: x.name.lower()):
      country_name = csv.stem.replace("-", " ").title()
      c_slug = slug(country_name)
      country_links.append((country_name, c_slug))
      df = read_csv_safe(csv)
      rows_html = []
      for _, row in df.iterrows(): ...
      write_html(DIST / r_slug / c_slug / "index.html",
                 tpl_base(f"{country_name} stocks - {CFG.get('site_title','')}",
                          f"Browse stocks listed in {country_name}.",
                          body, f"{BASE_URL}/{r_slug}/{c_slug}/"))
  \<close>
\<close>

definition py_stem :: "string \<Rightarrow> string" where
  \<comment> \<open>\<^verbatim>\<open>Path.stem\<close>: the name without its last suffix; a dot that starts or ends the name
      starts no suffix\<close>
  "py_stem name =
     (let after = takeWhile (\<lambda>c. c \<noteq> CHR ''.'') (rev name)
      in if length after < length name \<and> after \<noteq> [] \<and> Suc (length after) < length name
         then take (length name - Suc (length after)) name
         else name)"

definition country_name_of :: "csv_file \<Rightarrow> string" where
  "country_name_of csv = py_title (py_replace_char (CHR ''-'') (CHR '' '') (py_stem (csv_name csv)))"

definition build_country ::
  "pylib \<Rightarrow> config \<Rightarrow> date \<Rightarrow> string \<Rightarrow> csv_file \<Rightarrow> tree \<times> (string \<times> string) list
   \<Rightarrow> error + (tree \<times> (string \<times> string) list)" where
  "build_country lib cfg date_obj region csv st =
     (let r_slug = slug region;
          country_name = country_name_of csv;
          c_slug = slug country_name;
          links = snd st @ [(country_name, c_slug)]
      in case read_csv_safe csv of Inl e \<Rightarrow> Inl e | Inr df \<Rightarrow>
         (let cx = \<lparr>cx_lib = lib, cx_cfg = cfg, cx_date = date_obj, cx_region = region,
                    cx_r_slug = r_slug, cx_country = country_name, cx_c_slug = c_slug,
                    cx_columns = df_columns df\<rparr>
          in case build_rows cx (df_rows df) (fst st, []) of
               Inl e \<Rightarrow> Inl e
             | Inr (out, rows_html) \<Rightarrow>
                 Inr (write_html [r_slug, c_slug, ''index.html'']
                        (tpl_base
                           (country_name @ '' stocks '' @ em_dash @ '' '' @ site_title cfg)
                           (''Browse stocks listed in '' @ country_name @ ''.'')
                           (CountryBody country_name rows_html)
                           (BASE_URL cfg @ ''/'' @ r_slug @ ''/'' @ c_slug @ ''/''))
                        out,
                      links)))"

fun build_countries ::
  "pylib \<Rightarrow> config \<Rightarrow> date \<Rightarrow> string \<Rightarrow> csv_file list \<Rightarrow> tree \<times> (string \<times> string) list
   \<Rightarrow> error + (tree \<times> (string \<times> string) list)" where
  "build_countries lib cfg date_obj region [] st = Inr st"
| "build_countries lib cfg date_obj region (csv # csvs) st =
     (case build_country lib cfg date_obj region csv st of
        Inl e \<Rightarrow> Inl e
      | Inr st' \<Rightarrow> build_countries lib cfg date_obj region csvs st')"

fun is_region_dir :: "region_node \<Rightarrow> bool" where
  "is_region_dir RegionFile = False"
| "is_region_dir (RegionDir csvs) = True"

definition is_csv_name :: "string \<Rightarrow> bool" where
  "is_csv_name name = (4 \<le> length name \<and> drop (length name - 4) name = ''.csv'')"

fun glob_csv :: "region_node \<Rightarrow> csv_file list" where
  \<comment> \<open>\<^verbatim>\<open>region.glob("*.csv")\<close>\<close>
  "glob_csv RegionFile = []"
| "glob_csv (RegionDir fs) = filter (\<lambda>f. is_csv_name (csv_name f)) fs"

definition build_region ::
  "pylib \<Rightarrow> config \<Rightarrow> date \<Rightarrow> string \<times> region_node \<Rightarrow> tree \<Rightarrow> error + tree" where
  "build_region lib cfg date_obj region out =
     (let r_slug = slug (fst region);
          csvs = sort_key (\<lambda>x. py_lower (csv_name x)) (glob_csv (snd region))
      in case build_countries lib cfg date_obj (fst region) csvs (out, []) of
           Inl e \<Rightarrow> Inl e
         | Inr (out', country_links) \<Rightarrow>
             Inr (write_html [r_slug, ''index.html'']
                    (tpl_base
                       (fst region @ '' Markets '' @ em_dash @ '' '' @ site_title cfg)
                       (''Browse stock markets in '' @ fst region @ ''.'')
                       (RegionBody (fst region)
                          (map (\<lambda>l. (BASE_URL cfg @ ''/'' @ r_slug @ ''/'' @ snd l
                                        @ ''/index.html'', fst l))
                             country_links))
                       (BASE_URL cfg @ ''/'' @ r_slug @ ''/''))
                    out'))"

fun build_regions ::
  "pylib \<Rightarrow> config \<Rightarrow> date \<Rightarrow> (string \<times> region_node) list \<Rightarrow> tree \<Rightarrow> error + tree" where
  "build_regions lib cfg date_obj [] out = Inr out"
| "build_regions lib cfg date_obj (region # regions) out =
     (case build_region lib cfg date_obj region out of
        Inl e \<Rightarrow> Inl e
      | Inr out' \<Rightarrow> build_regions lib cfg date_obj regions out')"

subsection \<open>main: reset, home page, robots.txt and sitemap.xml\<close>

definition rmtree_if_exists :: "tree option \<Rightarrow> tree option" where
  \<comment> \<open>\<^verbatim>\<open>if DIST.exists(): shutil.rmtree(DIST)\<close>; \<open>None\<close> is a \<^verbatim>\<open>dist/\<close> that does not exist\<close>
  "rmtree_if_exists out = (case out of None \<Rightarrow> None | Some t \<Rightarrow> None)"

definition mkdir_static :: "tree option \<Rightarrow> tree" where
  \<comment> \<open>\<^verbatim>\<open>(DIST / "static").mkdir(parents=True, exist_ok=True)\<close> creates directories only\<close>
  "mkdir_static out = (case out of None \<Rightarrow> [] | Some t \<Rightarrow> t)"

definition fallback_css :: string where
  "fallback_css =
     ''body{font-family:system-ui;background:#0b1220;color:#e8f0fe;margin:0}''
     @ '' .container{max-width:1100px;margin:0 auto;padding:24px}''
     @ '' .card{background:#111a2b;border-radius:16px;padding:16px}''
     @ '' .h1{font-size:28px} .h2{font-size:22px} .h3{font-size:18px}''
     @ '' .grid{display:grid;gap:16px}''
     @ '' .table{width:100%;border-collapse:collapse}''
     @ '' .table td,.table th{border-bottom:1px solid #1f2a44;padding:8px}''
     @ '' .small{color:#9fb3c8}''"

definition copy_css :: "string option \<Rightarrow> tree \<Rightarrow> tree" where
  \<comment> \<open>the argument is the content of \<^verbatim>\<open>static/styles.css\<close> at the repository root, if it exists\<close>
  "copy_css css_src t =
     write_file [''static'', ''styles.css'']
       (Text (case css_src of Some css \<Rightarrow> css | None \<Rightarrow> fallback_css)) t"

definition LF :: char where
  "LF = CHR 0x0A"

definition robots_txt :: "string \<Rightarrow> string" where
  \<comment> \<open>\<^verbatim>\<open>f"Sitemap: {BASE_URL}/sitemap.xml\nUser-agent: *\nAllow: /\n"\<close>\<close>
  "robots_txt base =
     ''Sitemap: '' @ base @ ''/sitemap.xml'' @ [LF] @ ''User-agent: *'' @ [LF] @ ''Allow: /'' @ [LF]"

text \<open>
  \<^verbatim>\<open>
  urls = []
  for p in DIST.rglob("index.html"):
      rel = "/" + str(p.relative_to(DIST)).replace("\\", "/")
      urls.append(f"{BASE_URL}{rel[:-10]}")  # drop 'index.html'
  sm = ("<?xml version='1.0' encoding='UTF-8'?>"
        "<urlset xmlns='http://www.sitemaps.org/schemas/sitemap/0.9'>"
        + "".join([f"<url><loc>{u}</loc></url>" for u in urls])
        + "</urlset>")
  \<close>
  \<^verbatim>\<open>rglob\<close> yields the paths below \<^verbatim>\<open>dist/\<close> whose last component is \<^verbatim>\<open>index.html\<close>; the model
  yields them in the order of the tree.
\<close>

definition rglob_index :: "tree \<Rightarrow> path list" where
  "rglob_index t = filter (\<lambda>p. p \<noteq> [] \<and> last p = ''index.html'') (map fst t)"

fun path_str :: "path \<Rightarrow> string" where
  \<comment> \<open>\<^verbatim>\<open>str\<close> of a relative path: the components joined by slashes\<close>
  "path_str [] = []"
| "path_str [c] = c"
| "path_str (c # cs) = c @ ''/'' @ path_str cs"

definition sitemap_url :: "string \<Rightarrow> path \<Rightarrow> string" where
  "sitemap_url base p =
     (let rel = ''/'' @ py_replace_char (CHR 0x5C) (CHR ''/'') (path_str p)
      in base @ take (length rel - 10) rel)"

definition sitemap_xml :: "string list \<Rightarrow> string" where
  "sitemap_xml urls =
     ''<?xml version='1.0' encoding='UTF-8'?>''
     @ ''<urlset xmlns='http://www.sitemaps.org/schemas/sitemap/0.9'>''
     @ concat (map (\<lambda>u. ''<url><loc>'' @ u @ ''</loc></url>'') urls)
     @ ''</urlset>''"

definition write_sitemap :: "config \<Rightarrow> tree \<Rightarrow> tree" where
  "write_sitemap cfg t =
     write_file [''sitemap.xml'']
       (Text (sitemap_xml (map (sitemap_url (BASE_URL cfg)) (rglob_index t)))) t"

definition write_home :: "config \<Rightarrow> (string \<times> region_node) list \<Rightarrow> tree \<Rightarrow> tree" where
  "write_home cfg regions t =
     write_html [''index.html'']
       (tpl_base
          (site_title cfg @ '' '' @ em_dash @ '' '' @ site_tagline cfg)
          ''Daily static stock prediction pages built from your uploaded CSVs.''
          (HomeBody
             (map (\<lambda>r. (BASE_URL cfg @ ''/'' @ slug (fst r) @ ''/index.html'', fst r)) regions))
          (BASE_URL cfg @ ''/''))
       t"

text \<open>
  \<open>main\<close> takes the configuration, the library, \<^verbatim>\<open>Data/\<close>, the style sheet of the
  repository if there is one, and \<^verbatim>\<open>dist/\<close> as a previous run left it; it returns the new
  \<^verbatim>\<open>dist/\<close> or the exception that ended the run.
\<close>

definition main ::
  "config \<Rightarrow> pylib \<Rightarrow> data_dir \<Rightarrow> string option \<Rightarrow> tree option \<Rightarrow> error + tree" where
  "main cfg lib data css_src dist0 =
     (case find_latest_date_folder data of
        Inl e \<Rightarrow> Inl e
      | Inr (date_dir, date_obj) \<Rightarrow>
          (let t0 = mkdir_static (rmtree_if_exists dist0);
               t1 = copy_css css_src t0;
               regions = sort_key (\<lambda>x. py_lower (fst x))
                           (filter (\<lambda>p. is_region_dir (snd p)) (iterdir (snd date_dir)));
               t2 = write_home cfg regions t1
           in case build_regions lib cfg date_obj regions t2 of
                Inl e \<Rightarrow> Inl e
              | Inr t3 \<Rightarrow>
                  Inr (write_sitemap cfg (write_file [''robots.txt''] (Text (robots_txt (BASE_URL cfg))) t3))))"

subsection \<open>Auxiliary notions for the statements\<close>


function split_lines :: "string \<Rightarrow> string list" where
  "split_lines s =
     (if s = [] then []
      else takeWhile (\<lambda>c. c \<noteq> LF) s
           # (case dropWhile (\<lambda>c. c \<noteq> LF) s of [] \<Rightarrow> [] | c # rest \<Rightarrow> split_lines rest))"
  by pat_completeness auto
termination
proof (relation "measure length")
  fix s :: string and c rest
  assume "dropWhile (\<lambda>c. c \<noteq> LF) s = c # rest"
  then have "length (c # rest) \<le> length s" by (metis length_dropWhile_le)
  then show "(rest, s) \<in> measure length" by simp
qed simp

definition no_backslash :: "string \<Rightarrow> bool" where
  "no_backslash c = (CHR 0x5C \<notin> set c)"

definition tidy :: "tree \<Rightarrow> bool" where
  "tidy t = (distinct (map fst t) \<and> list_all (list_all no_backslash) (map fst t))"

subsection \<open>A sample build\<close>

text \<open>
  One dated folder with a plain file and one region, which holds a file that is not a
  CSV and one country file of two rows; the second row has an empty \<^verbatim>\<open>Close\<close> field,
  which pandas reads as NaN. The headers are capitalised, one has a leading space, and
  the columns \<^verbatim>\<open>exchange\<close>, \<^verbatim>\<open>sector\<close> and \<^verbatim>\<open>industry\<close> are missing. The library does
  exact arithmetic. The output directory holds a page of an earlier build. A second
  country file has no \<^verbatim>\<open>close\<close> column at all.
\<close>

definition exact_lib :: pylib where
  "exact_lib =
     \<lparr>rnd = Fin, float_of_text = (\<lambda>s. None), str_of_real = (\<lambda>x. ''1.0''),
      str_of_int = (\<lambda>i. ''1''), str_of_series = (\<lambda>vs. ''Series'')\<rparr>"

definition sample_cfg :: config where
  "sample_cfg =
     \<lparr>base_url = ''https://example.org/site/'', site_title = ''Stocks'',
      site_tagline = ''Daily''\<rparr>"

definition sample_frame :: data_frame where
  "sample_frame =
     \<lparr>df_columns = [''Symbol'', '' Description'', ''Open'', ''High'', ''Low'', ''Close''],
      df_rows =
        [[CStr ''ABC'', CStr ''Abc Ltd'', CFloat (Fin 10), CFloat (Fin 12), CFloat (Fin 8),
          CFloat (Fin (118/10))],
         [CStr ''XYZ'', CStr ''Xyz AG'', CFloat (Fin 10), CFloat (Fin 12), CFloat (Fin 9),
          CFloat NaN]]\<rparr>"

definition sample_csv :: csv_file where
  "sample_csv = \<lparr>csv_name = ''germany.csv'', csv_read = Inr sample_frame\<rparr>"

definition sample_data :: data_dir where
  "sample_data =
     Listing
       [(''05.01.2024'',
         DataFolder
           [(''Europe'',
             RegionDir [\<lparr>csv_name = ''README.md'', csv_read = Inl ReadError\<rparr>, sample_csv]),
            (''notes.txt'', RegionFile)])]"

definition stale_dist :: "tree option" where
  "stale_dist = Some [([''old'', ''index.html''], Text ''stale'')]"

definition sample_ctx :: country_ctx where
  "sample_ctx =
     \<lparr>cx_lib = exact_lib, cx_cfg = sample_cfg, cx_date = Date 738890,
      cx_region = ''Europe'', cx_r_slug = ''europe'', cx_country = ''Germany'',
      cx_c_slug = ''germany'',
      cx_columns = [''symbol'', ''description'', ''open'', ''high'', ''low'', ''close'',
                    ''exchange'', ''sector'', ''industry'']\<rparr>"



section \<open>Properties of the slug generator\<close>

subsection \<open>Character facts\<close>




lemma slug_char_facts:
  "is_slug_char c \<Longrightarrow> \<not> is_space c \<and> lower_char c = c \<and> c \<noteq> CHR ''-''"
  by (auto simp: is_space_def is_slug_char_def is_lower_def is_digit_def lower_char_def
      is_upper_def Let_def)

lemma hyphen_facts: "\<not> is_slug_char (CHR ''-'') \<and> lower_char (CHR ''-'') = CHR ''-''"
  by (simp add: is_slug_char_def is_lower_def is_digit_def lower_char_def is_upper_def)

subsection \<open>Stripping both ends\<close>

lemma strip_by_id:
  "t = [] \<or> (\<not> P (hd t) \<and> \<not> P (last t)) \<Longrightarrow> strip_by P t = t"
proof (cases t)
  case Nil
  then show ?thesis by (simp add: strip_by_def)
next
  case (Cons a as)
  assume "t = [] \<or> (\<not> P (hd t) \<and> \<not> P (last t))"
  with Cons have h: "\<not> P a" and l: "\<not> P (last t)" by auto
  from Cons h have 1: "dropWhile P t = t" by simp
  from Cons l have 2: "dropWhile P (rev t) = rev t"
    by (cases "rev t") (auto simp: hd_rev [symmetric])
  show ?thesis by (simp add: strip_by_def 1 2)
qed

lemma strip_by_decomp:
  "s = takeWhile P s @ strip_by P s @ rev (takeWhile P (rev (dropWhile P s)))"
proof -
  have "rev (dropWhile P s) =
        takeWhile P (rev (dropWhile P s)) @ dropWhile P (rev (dropWhile P s))"
    by simp
  then have "dropWhile P s =
        rev (dropWhile P (rev (dropWhile P s))) @ rev (takeWhile P (rev (dropWhile P s)))"
    by (metis rev_append rev_rev_ident)
  then have "takeWhile P s @ dropWhile P s =
      takeWhile P s @ strip_by P s @ rev (takeWhile P (rev (dropWhile P s)))"
    by (simp add: strip_by_def)
  then show ?thesis by simp
qed

lemma strip_by_ends:
  assumes "strip_by P s \<noteq> []"
  shows "\<not> P (hd (strip_by P s)) \<and> \<not> P (last (strip_by P s))"
proof -
  let ?d = "dropWhile P s"
  let ?r = "dropWhile P (rev ?d)"
  from assms have r: "?r \<noteq> []" by (simp add: strip_by_def)
  then have "\<not> P (hd ?r)" by (rule hd_dropWhile)
  then have l: "\<not> P (last (strip_by P s))"
    using r by (simp add: strip_by_def last_rev)
  have d: "?d \<noteq> []"
  proof
    assume "?d = []"
    with r show False by simp
  qed
  then have hd: "\<not> P (hd ?d)" by (rule hd_dropWhile)
  have "?d = strip_by P s @ rev (takeWhile P (rev ?d))"
    by (metis strip_by_def rev_append rev_rev_ident takeWhile_dropWhile_id)
  with assms have "hd ?d = hd (strip_by P s)" by (metis hd_append2)
  with hd l show ?thesis by simp
qed

subsection \<open>The substitution collapses runs\<close>

lemma re_sub_runs_nonslug:
  "\<not> is_slug_char c \<Longrightarrow>
   re_sub_runs (c # cs) = CHR ''-'' # re_sub_runs (dropWhile (\<lambda>x. \<not> is_slug_char x) cs)"
  by simp












subsection \<open>The shape of a slug\<close>

lemma slug_shaped_chars: "slug_shaped t \<Longrightarrow> c \<in> set t \<Longrightarrow> is_slug_char c \<or> c = CHR ''-''"
  by (induction t) auto

lemma slug_shaped_suffix: "slug_shaped (a @ m) \<Longrightarrow> slug_shaped m"
  by (induction a) auto

lemma slug_shaped_prefix: "slug_shaped (m @ b) \<Longrightarrow> slug_shaped m"
proof (induction m)
  case Nil
  then show ?case by simp
next
  case (Cons c cs)
  then show ?case by (cases cs) auto
qed

lemma hd_re_sub_runs: "t \<noteq> [] \<Longrightarrow> is_slug_char (hd t) \<Longrightarrow> hd (re_sub_runs t) = hd t"
  by (cases t) auto

lemma re_sub_runs_Nil: "re_sub_runs t = [] \<longleftrightarrow> t = []"
  by (cases t) auto

lemma slug_shaped_re_sub_runs: "slug_shaped (re_sub_runs t)"
proof (induction t rule: re_sub_runs.induct)
  case 1
  then show ?case by simp
next
  case (2 c cs)
  show ?case
  proof (cases "is_slug_char c")
    case True
    with 2(1) show ?thesis by simp
  next
    case False
    let ?d = "dropWhile (\<lambda>x. \<not> is_slug_char x) cs"
    have "re_sub_runs ?d = [] \<or> is_slug_char (hd (re_sub_runs ?d))"
    proof (cases "?d = []")
      case True
      then show ?thesis by (simp add: True)
    next
      case ne: False
      then have "is_slug_char (hd ?d)" using hd_dropWhile [OF ne] by simp
      with ne show ?thesis by (simp add: hd_re_sub_runs)
    qed
    with 2(2) [OF False] False show ?thesis by simp
  qed
qed

lemma re_sub_runs_shaped: "slug_shaped t \<Longrightarrow> re_sub_runs t = t"
proof (induction t)
  case Nil
  then show ?case by simp
next
  case (Cons c cs)
  show ?case
  proof (cases "is_slug_char c")
    case True
    with Cons show ?thesis by simp
  next
    case False
    with Cons.prems have "cs = [] \<or> is_slug_char (hd cs)" and c: "c = CHR ''-''" by auto
    then have "dropWhile (\<lambda>x. \<not> is_slug_char x) cs = cs" by (cases cs) auto
    with Cons False c show ?thesis by simp
  qed
qed

lemma slug_shaped_strip: "slug_shaped y \<Longrightarrow> slug_shaped (strip_by P y)"
  using strip_by_decomp [of y P] slug_shaped_suffix slug_shaped_prefix by metis

lemma slug_fixed:
  assumes sh: "slug_shaped t" and ne: "t \<noteq> []"
    and h: "hd t \<noteq> CHR ''-''" and l: "last t \<noteq> CHR ''-''"
  shows "slug t = t"
proof -
  from ne have "hd t \<in> set t" "last t \<in> set t" by simp_all
  with sh h l have ends: "is_slug_char (hd t)" "is_slug_char (last t)"
    using slug_shaped_chars by blast+
  then have "py_strip t = t"
    unfolding py_strip_def by (intro strip_by_id) (simp add: slug_char_facts)
  moreover have "py_lower t = t"
    unfolding py_lower_def
    by (rule map_idI) (use sh slug_shaped_chars slug_char_facts hyphen_facts in metis)
  moreover note re_sub_runs_shaped [OF sh]
  moreover have "strip_by (\<lambda>c. c = CHR ''-'') t = t"
    by (rule strip_by_id) (use h l in simp)
  ultimately show ?thesis using ne by (simp add: slug_def)
qed

text \<open>
  Claim C10. The slug generator is idempotent: a slug is its own slug.
\<close>

theorem slug_idempotent: "slug (slug s) = slug s"
proof -
  let ?t = "strip_by (\<lambda>c. c = CHR ''-'') (re_sub_runs (py_lower (py_strip s)))"
  show ?thesis
  proof (cases "?t = []")
    case True
    then have "slug s = ''stock''" by (simp add: slug_def)
    moreover have "slug ''stock'' = ''stock''" by code_simp
    ultimately show ?thesis by simp
  next
    case False
    then have eq: "slug s = ?t" by (simp add: slug_def)
    have "slug_shaped ?t" by (intro slug_shaped_strip slug_shaped_re_sub_runs)
    moreover from strip_by_ends [OF False]
    have "hd ?t \<noteq> CHR ''-''" "last ?t \<noteq> CHR ''-''" by simp_all
    ultimately have "slug ?t = ?t" using False by (intro slug_fixed)
    with eq show ?thesis by simp
  qed
qed


section \<open>The calendar\<close>

text \<open>
  The ordinal of a date: a year has 365 or 366 days, the days before a month add up, and
  so the ordinals of valid dates are ordered as year, month and day are, and lie between
  1 and \<open>MAXORDINAL\<close> up to the year 9999. A folder name that parses gives a date of the type.
\<close>

lemma div_pred:
  fixes y k :: int
  assumes k: "0 < k"
  shows "y div k = (y - 1) div k + (if y mod k = 0 then 1 else 0)"
proof (cases "y mod k = 0")
  case True
  have "y - 1 = k * (y div k - 1) + (k - 1)"
    using True mult_div_mod_eq [of k y] by (simp add: algebra_simps)
  from int_div_pos_eq [OF this] k have "(y - 1) div k = y div k - 1" by simp
  with True show ?thesis by simp
next
  case False
  have "0 \<le> y mod k" using k by (rule pos_mod_sign)
  with False have r1: "0 \<le> y mod k - 1" by simp
  have "y mod k < k" using k by (rule pos_mod_bound)
  then have r2: "y mod k - 1 < k" by simp
  have "y - 1 = k * (y div k) + (y mod k - 1)"
    using mult_div_mod_eq [of k y] by (simp add: algebra_simps)
  from int_div_pos_eq [OF this r1 r2] have "(y - 1) div k = y div k" .
  with False show ?thesis by simp
qed

lemma days_before_year_Suc: "days_before_year (y + 1) = days_before_year y + days_in_year y"
proof -
  define p4 p100 p400 where "p4 \<longleftrightarrow> y mod 4 = 0" and "p100 \<longleftrightarrow> y mod 100 = 0"
    and "p400 \<longleftrightarrow> y mod 400 = 0"
  define q4 q100 q400 where "q4 = (y - 1) div 4" and "q100 = (y - 1) div 100"
    and "q400 = (y - 1) div 400"
  have 4: "y div 4 = q4 + (if p4 then 1 else 0)"
    unfolding q4_def p4_def by (rule div_pred) simp
  have 100: "y div 100 = q100 + (if p100 then 1 else 0)"
    unfolding q100_def p100_def by (rule div_pred) simp
  have 400: "y div 400 = q400 + (if p400 then 1 else 0)"
    unfolding q400_def p400_def by (rule div_pred) simp
  have a: "p400 \<Longrightarrow> p100"
    unfolding p400_def p100_def using mod_mod_cancel [of 100 400 y] by simp
  have b: "p100 \<Longrightarrow> p4"
    unfolding p100_def p4_def using mod_mod_cancel [of 4 100 y] by simp
  have l: "days_in_year y = (if p4 \<and> (\<not> p100 \<or> p400) then 366 else 365)"
    by (simp only: days_in_year_def is_leap_def p4_def p100_def p400_def)
  have n: "days_before_year (y + 1) =
      y * 365 + (q4 + (if p4 then 1 else 0)) - (q100 + (if p100 then 1 else 0))
        + (q400 + (if p400 then 1 else 0))"
    by (simp only: days_before_year_def Let_def add_diff_cancel_right' 4 100 400)
  have o: "days_before_year y = (y - 1) * 365 + q4 - q100 + q400"
    by (simp only: days_before_year_def Let_def q4_def q100_def q400_def)
  show ?thesis
    unfolding n o l using a b by (cases p4; cases p100; cases p400) (simp_all add: algebra_simps)
qed

lemma days_in_year_ge: "365 \<le> days_in_year y"
  by (simp add: days_in_year_def)

lemma days_before_year_mono: "y \<le> y' \<Longrightarrow> days_before_year y \<le> days_before_year y'"
proof (induction "nat (y' - y)" arbitrary: y')
  case 0
  then show ?case by simp
next
  case (Suc n)
  then have "n = nat ((y' - 1) - y)" "y \<le> y' - 1" by auto
  from Suc.hyps(1) [OF this] have "days_before_year y \<le> days_before_year (y' - 1)" .
  moreover have "days_before_year (y' - 1) \<le> days_before_year y'"
    using days_before_year_Suc [of "y' - 1"] days_in_year_ge [of "y' - 1"] by simp
  ultimately show ?case by simp
qed

lemma month_cases:
  "1 \<le> m \<Longrightarrow> m \<le> 12 \<Longrightarrow>
   m = 1 \<or> m = 2 \<or> m = 3 \<or> m = 4 \<or> m = 5 \<or> m = 6 \<or> m = 7 \<or> m = 8 \<or> m = 9
   \<or> m = 10 \<or> m = 11 \<or> m = (12::int)"
  by arith

lemma days_before_month_Suc:
  assumes "1 \<le> m" and "m \<le> 11"
  shows "days_before_month y (m + 1) = days_before_month y m + days_in_month y m"
proof -
  from assms have "m = 1 \<or> m = 2 \<or> m = 3 \<or> m = 4 \<or> m = 5 \<or> m = 6 \<or> m = 7 \<or> m = 8
    \<or> m = 9 \<or> m = 10 \<or> m = 11" by arith
  then show ?thesis
    by (elim disjE) (simp_all add: days_before_month_def days_in_month_def)
qed

lemma days_before_month_last:
  "days_before_month y 12 + days_in_month y 12 = days_in_year y"
  by (simp add: days_before_month_def days_in_month_def days_in_year_def)

lemma days_in_month_ge:
  assumes "1 \<le> m" and "m \<le> 12"
  shows "28 \<le> days_in_month y m"
  using month_cases [OF assms]
  by (elim disjE) (simp_all add: days_in_month_def)

lemma days_before_month_mono:
  "1 \<le> m \<Longrightarrow> m \<le> m' \<Longrightarrow> m' \<le> 12 \<Longrightarrow> days_before_month y m \<le> days_before_month y m'"
proof (induction "nat (m' - m)" arbitrary: m')
  case 0
  then show ?case by simp
next
  case (Suc n)
  then have a: "n = nat ((m' - 1) - m)" "1 \<le> m" "m \<le> m' - 1" "m' - 1 \<le> 12" by auto
  from Suc.hyps(1) [OF a] have "days_before_month y m \<le> days_before_month y (m' - 1)" .
  moreover have "1 \<le> m' - 1" "m' - 1 \<le> 11" using a Suc.prems by simp_all
  then have "days_before_month y (m' - 1) \<le> days_before_month y m'"
    using days_before_month_Suc [of "m' - 1" y] days_in_month_ge [of "m' - 1" y] by simp
  ultimately show ?case by simp
qed

lemma day_of_year_bounds:
  assumes "valid_ymd y m d"
  shows "1 \<le> days_before_month y m + d" and "days_before_month y m + d \<le> days_in_year y"
proof -
  from assms have m: "1 \<le> m" "m \<le> 12" and d: "1 \<le> d" "d \<le> days_in_month y m"
    by (simp_all add: valid_ymd_def)
  have "0 \<le> days_before_month y 1" by (simp add: days_before_month_def)
  with days_before_month_mono [of 1 m y] m have "0 \<le> days_before_month y m" by simp
  with d show "1 \<le> days_before_month y m + d" by simp
  have "days_before_month y m + days_in_month y m \<le> days_in_year y"
  proof (cases "m = 12")
    case True
    then show ?thesis using days_before_month_last by simp
  next
    case False
    with m have m11: "m \<le> 11" by simp
    from days_before_month_Suc [OF m(1) m11]
    have "days_before_month y m + days_in_month y m = days_before_month y (m + 1)" by simp
    also have "\<dots> \<le> days_before_month y 12"
      using m m11 by (intro days_before_month_mono) simp_all
    also have "\<dots> \<le> days_in_year y"
      using days_before_month_last [of y] days_in_month_ge [of 12 y] by simp
    finally show ?thesis .
  qed
  with d show "days_before_month y m + d \<le> days_in_year y" by simp
qed

lemma ymd2ord_strict_mono:
  assumes a: "valid_ymd y m d" and b: "valid_ymd y' m' d'"
    and less: "ymd_less (y, m, d) (y', m', d')"
  shows "ymd2ord y m d < ymd2ord y' m' d'"
proof -
  from less consider (year) "y < y'" | (month) "y = y'" "m < m'" | (day) "y = y'" "m = m'" "d < d'"
    by (auto simp: ymd_less_def)
  then show ?thesis
  proof cases
    case year
    have "ymd2ord y m d \<le> days_before_year y + days_in_year y"
      using day_of_year_bounds(2) [OF a] by (simp add: ymd2ord_def)
    also have "\<dots> = days_before_year (y + 1)" by (simp add: days_before_year_Suc)
    also have "\<dots> \<le> days_before_year y'" using year by (intro days_before_year_mono) simp
    also have "\<dots> < ymd2ord y' m' d'"
      using day_of_year_bounds(1) [OF b] by (simp add: ymd2ord_def)
    finally show ?thesis .
  next
    case month
    from a b have m: "1 \<le> m" "m' \<le> 12" and d: "d \<le> days_in_month y m" "1 \<le> d'"
      by (simp_all add: valid_ymd_def)
    from month m have m11: "m \<le> 11" by simp
    have "days_before_month y m + d \<le> days_before_month y (m + 1)"
      using days_before_month_Suc [OF m(1) m11] d by simp
    also have "\<dots> \<le> days_before_month y m'"
      using month m by (intro days_before_month_mono) simp_all
    also have "\<dots> < days_before_month y m' + d'" using d by simp
    finally show ?thesis using month by (simp add: ymd2ord_def)
  next
    case day
    then show ?thesis by (simp add: ymd2ord_def)
  qed
qed

lemma ymd2ord_order:
  assumes a: "valid_ymd y m d" and b: "valid_ymd y' m' d'"
  shows "ymd2ord y m d < ymd2ord y' m' d' \<longleftrightarrow> ymd_less (y, m, d) (y', m', d')"
proof
  assume "ymd_less (y, m, d) (y', m', d')"
  then show "ymd2ord y m d < ymd2ord y' m' d'" by (rule ymd2ord_strict_mono [OF a b])
next
  assume lt: "ymd2ord y m d < ymd2ord y' m' d'"
  show "ymd_less (y, m, d) (y', m', d')"
  proof (rule ccontr)
    assume n: "\<not> ymd_less (y, m, d) (y', m', d')"
    then have "(y, m, d) = (y', m', d') \<or> ymd_less (y', m', d') (y, m, d)"
      by (auto simp: ymd_less_def)
    then show False
    proof
      assume "(y, m, d) = (y', m', d')"
      with lt show False by simp
    next
      assume "ymd_less (y', m', d') (y, m, d)"
      from ymd2ord_strict_mono [OF b a this] lt show False by simp
    qed
  qed
qed

lemma days_before_year_10000: "days_before_year 10000 = 3652059"
  by (simp add: days_before_year_def)

lemma ymd2ord_range:
  assumes a: "valid_ymd y m d" and y: "y \<le> 9999"
  shows "valid_date (Date (ymd2ord y m d))"
proof -
  from a have y1: "1 \<le> y" by (simp add: valid_ymd_def)
  have "days_before_year 1 = 0" by (simp add: days_before_year_def)
  with days_before_year_mono [OF y1] have "0 \<le> days_before_year y" by simp
  with day_of_year_bounds(1) [OF a] have lo: "1 \<le> ymd2ord y m d" by (simp add: ymd2ord_def)
  have "ymd2ord y m d \<le> days_before_year y + days_in_year y"
    using day_of_year_bounds(2) [OF a] by (simp add: ymd2ord_def)
  also have "\<dots> = days_before_year (y + 1)" by (simp add: days_before_year_Suc)
  also have "\<dots> \<le> days_before_year 10000" using y by (intro days_before_year_mono) simp
  finally have "ymd2ord y m d \<le> 3652059" by (simp add: days_before_year_10000)
  with lo show ?thesis by (simp add: valid_date_def MAXORDINAL_def)
qed

lemma dec_val_bounds4:
  assumes "length ds = 4" and "list_all is_digit ds"
  shows "0 \<le> dec_val ds \<and> dec_val ds \<le> 9999"
proof -
  from assms(1) obtain a b c d where ds: "ds = [a, b, c, d]"
    by (auto simp: length_Suc_conv numeral_eq_Suc)
  with assms(2) show ?thesis
    by (auto simp: dec_val_def is_digit_def Let_def)
qed

lemma strptime_valid: "strptime name = Inr d \<Longrightarrow> valid_date d"
proof -
  assume s: "strptime name = Inr d"
  then have dn: "is_dated_name name" by (auto simp: strptime_def split: if_splits)
  let ?d = "dec_val (take 2 name)" and ?m = "dec_val (take 2 (drop 3 name))"
    and ?y = "dec_val (drop 6 name)"
  from s dn have v: "valid_ymd ?y ?m ?d" and d: "d = Date (ymd2ord ?y ?m ?d)"
    by (auto simp: strptime_def Let_def valid_ymd_def split: if_splits)
  from dn have "length (drop 6 name) = 4" "list_all is_digit (drop 6 name)"
    by (simp_all add: is_dated_name_def)
  then have "?y \<le> 9999" using dec_val_bounds4 by blast
  from ymd2ord_range [OF v this] d show ?thesis by simp
qed

section \<open>The date projector\<close>

text \<open>
  Claim C3, as the code has it. For every date \<open>d\<close> of the calendar other than
  9999-12-31, \<open>next_business_day d\<close> returns \<open>d\<close> plus 3 days when \<open>d\<close> is a Friday, plus
  2 days when it is a Saturday and plus 1 day otherwise; the result is a date of the
  calendar, strictly later than \<open>d\<close>, and neither a Saturday nor a Sunday.
\<close>

theorem next_business_day_contract:
  assumes "valid_date d" and "toordinal d \<noteq> MAXORDINAL"
  shows "\<exists>d'. next_business_day d = Inr d'
           \<and> toordinal d' = toordinal d + (if weekday d = 4 then 3 else if weekday d = 5 then 2 else 1)
           \<and> valid_date d' \<and> toordinal d < toordinal d'
           \<and> weekday d' \<noteq> 5 \<and> weekday d' \<noteq> 6"
proof -
  let ?n = "toordinal d"
  from assms have r: "1 \<le> ?n" "?n < 3652059" by (simp_all add: valid_date_def MAXORDINAL_def)
  consider (fri) "(?n + 6) mod 7 = 4" | (sat) "(?n + 6) mod 7 = 5"
    | (other) "(?n + 6) mod 7 \<noteq> 4" "(?n + 6) mod 7 \<noteq> 5" by blast
  then show ?thesis
  proof cases
    case fri
    with r have "?n + 3 \<le> 3652059" "(?n + 3 + 6) mod 7 = 0" by presburger+
    with fri r show ?thesis
      by (simp add: next_business_day_def weekday_def add_days_def valid_date_def MAXORDINAL_def)
  next
    case sat
    with r have "?n + 2 \<le> 3652059" "(?n + 2 + 6) mod 7 = 0" by presburger+
    with sat r show ?thesis
      by (simp add: next_business_day_def weekday_def add_days_def valid_date_def MAXORDINAL_def)
  next
    case other
    with r have "(?n + 1 + 6) mod 7 \<noteq> 5" "(?n + 1 + 6) mod 7 \<noteq> 6" by presburger+
    with other r show ?thesis
      by (simp add: next_business_day_def weekday_def add_days_def valid_date_def MAXORDINAL_def)
  qed
qed

text \<open>The contract at Friday 2024-01-05 (ordinal 738890): the result is Monday 2024-01-08.\<close>

theorem next_business_day_witness:
  "valid_date (Date 738890) \<and> toordinal (Date 738890) \<noteq> MAXORDINAL
   \<and> weekday (Date 738890) = 4
   \<and> next_business_day (Date 738890) = Inr (Date 738893)
   \<and> weekday (Date 738893) = 0"
proof -
  have v: "valid_date (Date 738890)" by (simp add: valid_date_def MAXORDINAL_def)
  have m: "toordinal (Date 738890) \<noteq> MAXORDINAL" by (simp add: MAXORDINAL_def)
  have w: "weekday (Date 738890) = 4" by (simp add: weekday_def)
  from next_business_day_contract [OF v m] w obtain d' where
    r: "next_business_day (Date 738890) = Inr d'" and o: "toordinal d' = 738893"
    by auto
  from o have "d' = Date 738893" by (cases d') simp
  with r v m w show ?thesis by (simp add: weekday_def)
qed

text \<open>
  The claim as stated fails at the last date of the calendar: 9999-12-31 (what the
  folder name \<open>''31.12.9999''\<close> parses to) is a Friday, and adding three days raises.
\<close>

theorem next_business_day_counterexample:
  "strptime ''31.12.9999'' = Inr (Date 3652059)
   \<and> valid_date (Date 3652059)
   \<and> weekday (Date 3652059) = 4
   \<and> next_business_day (Date 3652059) = Inl OverflowError"
proof -
  have "strptime ''31.12.9999'' = Inr (Date 3652059)" by code_simp
  then show ?thesis
    by (simp add: valid_date_def next_business_day_def weekday_def add_days_def MAXORDINAL_def)
qed

section \<open>The dataset locator\<close>










section \<open>The signal classifier\<close>

lemma flt_simps2 [simp]: "flt PInf b = False" "flt a NInf = False" "flt a NaN = False"
  by (cases b; simp) (cases a; simp)+

lemma fadd_NaN_right [simp]: "fadd r a NaN = NaN"
  by (cases a) simp_all

lemma fle_Fin [simp]: "fle (Fin x) (Fin y) = (x \<le> y)"
  by (auto simp: fle_def)

lemma fle_trans: "fle a b \<Longrightarrow> fle b c \<Longrightarrow> fle a c"
  by (cases a; cases b; cases c) (auto simp: fle_def)

lemma flt_imp_fle: "flt a b \<Longrightarrow> fle a b"
  by (simp add: fle_def)

lemma fle_not_NaN: "fle a b \<Longrightarrow> a \<noteq> NaN \<and> b \<noteq> NaN"
  by (cases a; cases b) (auto simp: fle_def)

lemma fle_zero_cases: "fle (Fin 0) a \<Longrightarrow> a = PInf \<or> (\<exists>x. a = Fin x \<and> 0 \<le> x)"
  by (cases a) (auto simp: fle_def)

lemma rounding_mono: "rounding r \<Longrightarrow> x \<le> y \<Longrightarrow> fle (r x) (r y)"
  by (simp add: rounding_def)

lemma rounding_nonneg: "rounding r \<Longrightarrow> 0 \<le> x \<Longrightarrow> r x = PInf \<or> (\<exists>y. r x = Fin y \<and> 0 \<le> y)"
  using rounding_mono [of r 0 x] fle_zero_cases [of "r x"] by (simp add: rounding_def)

lemma rounding_fixes: "rounding r \<Longrightarrow> r x = Fin y \<Longrightarrow> r y = Fin y"
  by (auto simp: rounding_def)

lemma fdiv_two: "\<exists>half. fdiv r a (Fin 2) = Inr half"
  by (cases a) simp_all

lemma confidence_bounds:
  assumes R: "rounding r" and big: "\<not> flt ratio (r (1/5))"
  shows "\<exists>conf. confidence r ratio = Inr conf \<and> fle (r (1/2)) conf \<and> fle conf (r (9/10))"
proof -
  obtain half where half: "fdiv r ratio (Fin 2) = Inr half" using fdiv_two by blast
  let ?b = "fadd r (r (3/5)) half"
  have conf: "confidence r ratio = Inr (py_min (r (9/10)) ?b)"
    by (simp only: confidence_def half sum.case)
  have m59: "fle (r (1/2)) (r (9/10))" using R by (intro rounding_mono) simp_all
  have m56: "fle (r (1/2)) (r (3/5))" using R by (intro rounding_mono) simp_all
  have m99: "fle (r (9/10)) (r (9/10))" using R by (intro rounding_mono) simp_all
  show ?thesis
  proof (cases "flt ?b (r (9/10))")
    case False
    with conf m59 m99 show ?thesis by (simp add: py_min_def)
  next
    case small: True
    from rounding_nonneg [OF R, of "3/5"]
    consider "r (3/5) = PInf" | z where "r (3/5) = Fin z" "0 \<le> z" by auto
    then have "fle (r (3/5)) ?b"
    proof cases
      case 1
      with small show ?thesis by (cases half) simp_all
    next
      case (2 z)
      from rounding_nonneg [OF R, of "1/5"]
      consider "r (1/5) = PInf" | t where "r (1/5) = Fin t" "0 \<le> t" by auto
      then obtain q where q: "ratio = Fin q" "0 \<le> q \<or> ratio = PInf"
      proof cases
        case 1
        with big small 2 half show ?thesis by (cases ratio) (auto split: if_splits)
      next
        case (2 t)
        with big small \<open>r (3/5) = Fin z\<close> half show ?thesis
          by (cases ratio) (auto split: if_splits intro: that)
      qed
      with half have h: "half = r (q / 2)" by simp
      from q have "0 \<le> q / 2" by auto
      from rounding_nonneg [OF R this] h
      consider "half = PInf" | hv where "half = Fin hv" "0 \<le> hv" by auto
      then show ?thesis
      proof cases
        case 1
        with small 2 show ?thesis by simp
      next
        case (2 hv)
        from rounding_fixes [OF R \<open>r (3/5) = Fin z\<close>] have "r z = Fin z" .
        moreover from 2 have "fle (r z) (r (z + hv))" using R by (intro rounding_mono) simp_all
        ultimately show ?thesis using 2 \<open>r (3/5) = Fin z\<close> by simp
      qed
    qed
    with m56 have "fle (r (1/2)) ?b" by (rule fle_trans)
    with small conf show ?thesis by (simp add: py_min_def flt_imp_fle)
  qed
qed

lemma fdiv_nonzero: "\<not> fle rng (Fin 0) \<Longrightarrow> \<exists>ratio. fdiv r body rng = Inr ratio"
  by (cases rng; cases body) simp_all

lemma rounding_exact: "rounding Fin"
  by (simp add: rounding_def)

text \<open>
  Claim C2. For every quadruple of floats, NaN and the infinities included, and every
  rounding, \<open>classify\<close> returns (it never divides by zero) and the confidence it returns
  is at least the float 0.5 and at most the float 0.9.
\<close>

theorem classify_confidence_bounds:
  assumes R: "rounding r"
  shows "\<exists>sig conf reason. classify r opn hi lo cl = Inr (sig, conf, reason)
           \<and> fle (r (1/2)) conf \<and> fle conf (r (9/10))"
proof -
  let ?rng = "fsub r (py_max hi lo) (py_min hi lo)"
  let ?body = "fabs (fsub r cl opn)"
  have m59: "fle (r (1/2)) (r (9/10))" using R by (intro rounding_mono) simp_all
  have m55: "fle (r (1/2)) (r (1/2))" using R by (intro rounding_mono) simp_all
  show ?thesis
  proof (cases "fle ?rng (Fin 0)")
    case True
    with m59 m55 show ?thesis by (simp add: classify_def)
  next
    case False
    then obtain ratio where ratio: "fdiv r ?body ?rng = Inr ratio"
      using fdiv_nonzero by blast
    show ?thesis
    proof (cases "flt ratio (r (1/5))")
      case True
      with False ratio m59 m55 show ?thesis by (simp add: classify_def)
    next
      case big: False
      from confidence_bounds [OF R big] obtain conf where
        c: "confidence r ratio = Inr conf" "fle (r (1/2)) conf" "fle conf (r (9/10))" by blast
      with False ratio big m59 m55 show ?thesis by (simp add: classify_def)
    qed
  qed
qed

text \<open>
  The bound with exact arithmetic at the specification's example
  \<^verbatim>\<open>classify(10, 12, 8, 11.8)\<close>, whose confidence is 0.825.
\<close>

theorem classify_confidence_witness:
  "rounding Fin
   \<and> classify Fin (Fin 10) (Fin 12) (Fin 8) (Fin (118/10))
       = Inr (''Bullish'', Fin (825/1000), ''Close above open'')
   \<and> fle (Fin (1/2)) (Fin (825/1000)) \<and> fle (Fin (825/1000)) (Fin (9/10))"
proof -
  have c: "classify Fin (Fin 10) (Fin 12) (Fin 8) (Fin (118/10))
       = Inr (''Bullish'', Fin (825/1000), ''Close above open'')"
    by (simp add: classify_def fsub_def py_max_def py_min_def confidence_def)
  from classify_confidence_bounds [OF rounding_exact, of "Fin 10" "Fin 12" "Fin 8" "Fin (118/10)"] c
  have "fle (Fin (1/2)) (Fin (825/1000)) \<and> fle (Fin (825/1000)) (Fin (9/10))" by simp
  with c rounding_exact show ?thesis by simp
qed

section \<open>The row normalizer\<close>











section \<open>The row loop\<close>

text \<open>Every row that is processed appends one row to the table of its country.\<close>

lemma build_rows_appends:
  "build_rows cx rows st = Inr st' \<Longrightarrow> length (snd st') = length (snd st) + length rows"
proof (induction rows arbitrary: st)
  case Nil
  then show ?case by simp
next
  case (Cons row rows)
  from Cons.prems obtain st1 where 1: "process_row cx row st = Inr st1"
    and 2: "build_rows cx rows st1 = Inr st'" by (auto split: sum.splits)
  from 1 have "length (snd st1) = Suc (length (snd st))"
    by (auto simp: process_row_def Let_def split: sum.splits prod.splits)
  with Cons.IH [OF 2] show ?case by simp
qed

text \<open>
  A row without OHLC leaves the tree as it is; a row with OHLC writes one page, at the
  path of its slug, whose canonical URL is the base URL followed by the three slugs.
\<close>

lemma process_row_page:
  assumes "process_row cx row st = Inr st'"
  shows "case read_ohlc (cx_lib cx) (cx_columns cx) row of
           None \<Rightarrow> fst st' = fst st
         | Some q \<Rightarrow>
             \<exists>s pg. fst st' = write_html (stock_path cx s) (Html pg) (fst st)
                    \<and> pg_canonical pg = stock_url cx s"
proof (cases "read_ohlc (cx_lib cx) (cx_columns cx) row")
  case None
  with assms show ?thesis
    by (auto simp: process_row_def Let_def split: sum.splits prod.splits)
next
  case (Some q)
  with assms obtain s title descr bdy where
    "fst st' = write_html (stock_path cx s) (tpl_base title descr bdy (stock_url cx s)) (fst st)"
    by (auto simp: process_row_def Let_def split: sum.splits prod.splits)
  then have "fst st' = write_html (stock_path cx s)
               (Html \<lparr>pg_title = title, pg_description = descr, pg_body = bdy,
                      pg_canonical = stock_url cx s\<rparr>) (fst st)"
    by (simp add: tpl_base_def)
  then have "\<exists>s pg. fst st' = write_html (stock_path cx s) (Html pg) (fst st)
                    \<and> pg_canonical pg = stock_url cx s"
    by (metis page.select_convs(4))
  with Some show ?thesis by simp
qed

text \<open>
  Claim C1, at a row the claim gets wrong. The second row of the sample file has the
  columns of OHLC but an empty \<^verbatim>\<open>Close\<close> field, a NaN cell. \<^verbatim>\<open>float\<close> accepts NaN, the
  four values are not \<^verbatim>\<open>None\<close>, and the row loop writes a detail page for the row (signal
  \<open>''Sideways''\<close>, reason \<open>''Flat''\<close>) besides its table row, whose close is NaN.
\<close>

theorem detail_page_for_nan_close: "process_row sample_ctx
     [CStr ''XYZ'', CStr ''Xyz AG'', CFloat (Fin 10), CFloat (Fin 12), CFloat (Fin 9),
      CFloat NaN, CStr '''', CStr '''', CStr ''''] ([], [])
   = Inr ([([''europe'', ''germany'', ''xyz-ag'', ''index.html''],
            Html \<lparr>pg_title = ''Xyz AG prediction tomorrow '' @ em_dash @ '' Stocks'',
                  pg_description = ''Xyz AG (XYZ) next-day prediction and OHLC snapshot.'',
                  pg_body = StockBody
                    \<lparr>sc_name = ''Xyz AG'', sc_sym = ''XYZ'', sc_region = ''Europe'',
                     sc_country = ''Germany'', sc_exch = '''', sc_session = Date 738890,
                     sc_ohlc = (Fin 10, Fin 12, Fin 9, NaN), sc_pred = Date 738893,
                     sc_sig = ''Sideways'', sc_reason = ''Flat'', sc_conf = Fin (1/2)\<rparr>,
                  pg_canonical = ''https://example.org/site/europe/germany/xyz-ag/''\<rparr>)],
          [\<lparr>tr_href = ''https://example.org/site/europe/germany/xyz-ag/index.html'',
            tr_sym = ''XYZ'', tr_name = ''Xyz AG'', tr_exch = '''', tr_sec = '''', tr_ind = '''',
            tr_close = Some NaN, tr_sig = ''Sideways''\<rparr>])"
  by code_simp

section \<open>The output tree\<close>

text \<open>
  Every path that the build writes is made of slugs and fixed names, so the tree is
  tidy at every stage.
\<close>

lemma map_fst_write_file:
  "map fst (write_file p c t) = (if p \<in> set (map fst t) then map fst t else map fst t @ [p])"
  by (induction t) auto

lemma map_of_write_file: "map_of (write_file p c t) = (map_of t)(p \<mapsto> c)"
  by (induction t) (auto simp: fun_eq_iff)

lemma tidy_write_file: "tidy t \<Longrightarrow> list_all no_backslash p \<Longrightarrow> tidy (write_file p c t)"
  by (auto simp: tidy_def map_fst_write_file)

lemma tidy_write_html: "tidy t \<Longrightarrow> list_all no_backslash p \<Longrightarrow> tidy (write_html p c t)"
  by (simp add: write_html_def tidy_write_file)

lemma slug_shaped_slug: "slug_shaped (slug s)"
proof -
  have "slug_shaped ''stock''" by code_simp
  then show ?thesis
    by (auto simp: slug_def Let_def intro: slug_shaped_strip slug_shaped_re_sub_runs)
qed

lemma no_backslash_slug: "no_backslash (slug s)"
proof -
  have "c \<noteq> CHR 0x5C" if "c \<in> set (slug s)" for c
  proof -
    from slug_shaped_chars [OF slug_shaped_slug that]
    show ?thesis by (auto simp: is_slug_char_def is_lower_def is_digit_def)
  qed
  then show ?thesis by (auto simp: no_backslash_def)
qed

lemma no_backslash_index: "no_backslash ''index.html''"
  by (simp add: no_backslash_def)

lemma process_row_tidy:
  assumes "process_row cx row st = Inr st'" and "tidy (fst st)"
    and "no_backslash (cx_r_slug cx)" and "no_backslash (cx_c_slug cx)"
  shows "tidy (fst st')"
  using assms
  by (auto simp: process_row_def Let_def stock_path_def no_backslash_slug no_backslash_index
      intro!: tidy_write_html split: sum.splits option.splits prod.splits)

lemma build_rows_tidy:
  assumes "build_rows cx rows st = Inr st'" and "tidy (fst st)"
    and "no_backslash (cx_r_slug cx)" and "no_backslash (cx_c_slug cx)"
  shows "tidy (fst st')"
  using assms
proof (induction rows arbitrary: st)
  case Nil
  then show ?case by simp
next
  case (Cons row rows)
  from Cons.prems(1) obtain st1 where 1: "process_row cx row st = Inr st1"
    and 2: "build_rows cx rows st1 = Inr st'" by (auto split: sum.splits)
  from process_row_tidy [OF 1 Cons.prems(2-4)] have "tidy (fst st1)" .
  from Cons.IH [OF 2 this Cons.prems(3-4)] show ?case .
qed

lemma build_country_tidy:
  assumes "build_country lib cfg date_obj region csv st = Inr st'" and "tidy (fst st)"
  shows "tidy (fst st')"
proof -
  let ?cx = "\<lambda>df :: data_frame. \<lparr>cx_lib = lib, cx_cfg = cfg, cx_date = date_obj, cx_region = region,
                    cx_r_slug = slug region, cx_country = country_name_of csv,
                    cx_c_slug = slug (country_name_of csv), cx_columns = df_columns df\<rparr>"
  from assms(1) obtain df :: data_frame and out rows_html where
    b: "build_rows (?cx df) (df_rows df) (fst st, []) = Inr (out, rows_html)"
    and s: "fst st' = write_html [slug region, slug (country_name_of csv), ''index.html'']
              (tpl_base
                 (country_name_of csv @ '' stocks '' @ em_dash @ '' '' @ site_title cfg)
                 (''Browse stocks listed in '' @ country_name_of csv @ ''.'')
                 (CountryBody (country_name_of csv) rows_html)
                 (BASE_URL cfg @ ''/'' @ slug region @ ''/'' @ slug (country_name_of csv) @ ''/''))
              out"
    by (auto simp: build_country_def Let_def split: sum.splits prod.splits)
  from build_rows_tidy [OF b] assms(2) have "tidy out" by (simp add: no_backslash_slug)
  then show ?thesis
    unfolding s by (intro tidy_write_html) (simp_all add: no_backslash_slug no_backslash_index)
qed

lemma build_countries_tidy:
  assumes "build_countries lib cfg date_obj region csvs st = Inr st'" and "tidy (fst st)"
  shows "tidy (fst st')"
  using assms
proof (induction csvs arbitrary: st)
  case Nil
  then show ?case by simp
next
  case (Cons csv csvs)
  from Cons.prems(1) obtain st1 where 1: "build_country lib cfg date_obj region csv st = Inr st1"
    and 2: "build_countries lib cfg date_obj region csvs st1 = Inr st'"
    by (auto split: sum.splits)
  from build_country_tidy [OF 1 Cons.prems(2)] have "tidy (fst st1)" .
  from Cons.IH [OF 2 this] show ?case .
qed

lemma build_region_tidy:
  assumes "build_region lib cfg date_obj region out = Inr out'" and "tidy out"
  shows "tidy out'"
proof -
  from assms(1) obtain st' where
    b: "build_countries lib cfg date_obj (fst region)
          (sort_key (\<lambda>x. py_lower (csv_name x)) (glob_csv (snd region))) (out, []) = Inr st'"
    and s: "\<exists>c. out' = write_html [slug (fst region), ''index.html''] c (fst st')"
    by (auto simp: build_region_def Let_def split: sum.splits prod.splits)
  from build_countries_tidy [OF b] assms(2) have "tidy (fst st')" by simp
  with s show ?thesis
    by (auto intro!: tidy_write_html simp: no_backslash_slug no_backslash_index)
qed

lemma build_regions_tidy:
  assumes "build_regions lib cfg date_obj regions out = Inr out'" and "tidy out"
  shows "tidy out'"
  using assms
proof (induction regions arbitrary: out)
  case Nil
  then show ?case by simp
next
  case (Cons region regions)
  from Cons.prems(1) obtain out1 where 1: "build_region lib cfg date_obj region out = Inr out1"
    and 2: "build_regions lib cfg date_obj regions out1 = Inr out'"
    by (auto split: sum.splits)
  from build_region_tidy [OF 1 Cons.prems(2)] have "tidy out1" .
  from Cons.IH [OF 2 this] show ?case .
qed

lemma main_shape:
  assumes "main cfg lib data css_src dist0 = Inr t"
  shows "\<exists>t3. tidy t3
           \<and> t = write_sitemap cfg (write_file [''robots.txt''] (Text (robots_txt (BASE_URL cfg))) t3)"
proof -
  from assms obtain date_dir :: "string \<times> data_node" and date_obj t3 where
    b: "build_regions lib cfg date_obj
          (sort_key (\<lambda>x. py_lower (fst x))
             (filter (\<lambda>p. is_region_dir (snd p)) (iterdir (snd date_dir))))
          (write_home cfg
             (sort_key (\<lambda>x. py_lower (fst x))
                (filter (\<lambda>p. is_region_dir (snd p)) (iterdir (snd date_dir))))
             (copy_css css_src (mkdir_static (rmtree_if_exists dist0)))) = Inr t3"
    and t: "t = write_sitemap cfg (write_file [''robots.txt''] (Text (robots_txt (BASE_URL cfg))) t3)"
    by (auto simp: main_def Let_def split: sum.splits prod.splits)
  have "tidy (mkdir_static (rmtree_if_exists dist0))"
    by (simp add: mkdir_static_def rmtree_if_exists_def tidy_def split: option.splits)
  then have "tidy (copy_css css_src (mkdir_static (rmtree_if_exists dist0)))"
    unfolding copy_css_def by (intro tidy_write_file) (simp_all add: no_backslash_def)
  then have "tidy (write_home cfg
             (sort_key (\<lambda>x. py_lower (fst x))
                (filter (\<lambda>p. is_region_dir (snd p)) (iterdir (snd date_dir))))
             (copy_css css_src (mkdir_static (rmtree_if_exists dist0))))"
    unfolding write_home_def by (intro tidy_write_html) (simp_all add: no_backslash_index)
  from build_regions_tidy [OF b this] t show ?thesis by blast
qed

lemma sample_build:
  "case main sample_cfg exact_lib sample_data None stale_dist of
     Inl e \<Rightarrow> False
   | Inr t \<Rightarrow>
       rglob_index t =
         [[''index.html''], [''europe'', ''germany'', ''abc-ltd'', ''index.html''],
          [''europe'', ''germany'', ''xyz-ag'', ''index.html''],
          [''europe'', ''germany'', ''index.html''], [''europe'', ''index.html'']]
       \<and> map_of t [''robots.txt''] = Some (Text (robots_txt ''https://example.org/site''))"
  by code_simp

section \<open>The sitemap\<close>








section \<open>robots.txt\<close>

declare split_lines.simps [simp del]

lemma split_lines_Nil: "split_lines [] = []"
  by (simp add: split_lines.simps)

lemma split_lines_line:
  "LF \<notin> set l \<Longrightarrow> split_lines (l @ LF # rest) = l # split_lines rest"
proof -
  assume "LF \<notin> set l"
  then have l: "\<forall>c \<in> set l. c \<noteq> LF" by auto
  then have "takeWhile (\<lambda>c. c \<noteq> LF) (l @ LF # rest) = l"
    by (simp add: takeWhile_append)
  moreover from l have "dropWhile (\<lambda>c. c \<noteq> LF) (l @ LF # rest) = LF # rest"
    by (simp add: dropWhile_append)
  ultimately show ?thesis
    by (subst split_lines.simps) simp
qed

lemma robots_lines:
  assumes "LF \<notin> set base"
  shows "split_lines (robots_txt base)
           = [''Sitemap: '' @ base @ ''/sitemap.xml'', ''User-agent: *'', ''Allow: /'']"
proof -
  have 1: "LF \<notin> set (''Sitemap: '' @ base @ ''/sitemap.xml'')" using assms by (simp add: LF_def)
  have 2: "LF \<notin> set ''User-agent: *''" by (simp add: LF_def)
  have 3: "LF \<notin> set ''Allow: /''" by (simp add: LF_def)
  have "robots_txt base = (''Sitemap: '' @ base @ ''/sitemap.xml'') @ LF #
          (''User-agent: *'' @ LF # (''Allow: /'' @ LF # []))"
    by (simp add: robots_txt_def)
  then show ?thesis
    by (simp only: split_lines_line [OF 1] split_lines_line [OF 2] split_lines_line [OF 3]
        split_lines_Nil)
qed

lemma sample_robots_lines:
  "split_lines (robots_txt ''https://example.org/site'')
     = [''Sitemap: https://example.org/site/sitemap.xml'', ''User-agent: *'', ''Allow: /'']"
  by code_simp

text \<open>
  Claim C9, as the code has it. When the build succeeds, \<^verbatim>\<open>robots.txt\<close> holds the text of
  \<open>robots_txt\<close> for the base URL; unless the base URL itself contains a line feed, that
  text is three lines, each ended by a line feed: \<^verbatim>\<open>Sitemap: {base_url}/sitemap.xml\<close>,
  \<^verbatim>\<open>User-agent: *\<close> and \<^verbatim>\<open>Allow: /\<close>.
\<close>

theorem robots_txt_lines:
  assumes "main cfg lib data css_src dist0 = Inr t"
  shows "map_of t [''robots.txt''] = Some (Text (robots_txt (BASE_URL cfg)))
       \<and> robots_txt (BASE_URL cfg)
           = concat (map (\<lambda>l. l @ [LF])
               [''Sitemap: '' @ BASE_URL cfg @ ''/sitemap.xml'', ''User-agent: *'', ''Allow: /''])
       \<and> (LF \<notin> set (BASE_URL cfg) \<longrightarrow>
            split_lines (robots_txt (BASE_URL cfg))
              = [''Sitemap: '' @ BASE_URL cfg @ ''/sitemap.xml'', ''User-agent: *'', ''Allow: /''])"
proof -
  have c: "robots_txt (BASE_URL cfg)
           = concat (map (\<lambda>l. l @ [LF])
               [''Sitemap: '' @ BASE_URL cfg @ ''/sitemap.xml'', ''User-agent: *'', ''Allow: /''])"
    by (simp add: robots_txt_def)
  from main_shape [OF assms] obtain t3 where
    t: "t = write_sitemap cfg (write_file [''robots.txt''] (Text (robots_txt (BASE_URL cfg))) t3)"
    by blast
  have "map_of t [''robots.txt''] = Some (Text (robots_txt (BASE_URL cfg)))"
    unfolding t write_sitemap_def by (simp add: map_of_write_file)
  with c robots_lines show ?thesis by blast
qed

text \<open>The three lines of the sample build.\<close>

theorem robots_txt_lines_witness:
  "LF \<notin> set (BASE_URL sample_cfg)
   \<and> (\<exists>t. main sample_cfg exact_lib sample_data None stale_dist = Inr t
         \<and> map_of t [''robots.txt''] = Some (Text (robots_txt (BASE_URL sample_cfg))))
   \<and> split_lines (robots_txt (BASE_URL sample_cfg))
        = [''Sitemap: https://example.org/site/sitemap.xml'', ''User-agent: *'', ''Allow: /'']"
proof -
  have b: "BASE_URL sample_cfg = ''https://example.org/site''" by code_simp
  have l: "LF \<notin> set (BASE_URL sample_cfg)" unfolding b by (simp add: LF_def)
  from sample_build obtain t where
    m: "main sample_cfg exact_lib sample_data None stale_dist = Inr t"
    by (auto split: sum.splits)
  from robots_txt_lines [OF m] l
  have "map_of t [''robots.txt''] = Some (Text (robots_txt (BASE_URL sample_cfg)))"
    and "split_lines (robots_txt (BASE_URL sample_cfg))
        = [''Sitemap: '' @ BASE_URL sample_cfg @ ''/sitemap.xml'', ''User-agent: *'', ''Allow: /'']"
    by blast+
  with l m show ?thesis by (auto simp: b)
qed

text \<open>
  The claim as stated fails on the sample build: the file has three lines, and
  \<^verbatim>\<open>User-agent: * / Allow: /\<close> is none of them.
\<close>

theorem robots_txt_two_lines_counterexample:
  "(\<exists>t. main sample_cfg exact_lib sample_data None stale_dist = Inr t
       \<and> map_of t [''robots.txt''] = Some (Text (robots_txt ''https://example.org/site'')))
   \<and> split_lines (robots_txt ''https://example.org/site'')
        = [''Sitemap: https://example.org/site/sitemap.xml'', ''User-agent: *'', ''Allow: /'']
   \<and> split_lines (robots_txt ''https://example.org/site'')
        \<noteq> [''Sitemap: https://example.org/site/sitemap.xml'', ''User-agent: * / Allow: /'']"
proof -
  from sample_build obtain t where
    "main sample_cfg exact_lib sample_data None stale_dist = Inr t"
    "map_of t [''robots.txt''] = Some (Text (robots_txt ''https://example.org/site''))"
    by (auto split: sum.splits)
  then show ?thesis by (auto simp: sample_robots_lines)
qed

section \<open>The reset of the output directory\<close>

text \<open>
  Claim C6. The tree that the build starts to write into is empty whatever \<^verbatim>\<open>dist/\<close>
  held before, and the outcome of the build is the outcome over a \<^verbatim>\<open>dist/\<close> that did not
  exist: no file of a previous build is in the output tree.
\<close>

theorem rebuild_discards_previous_output: "mkdir_static (rmtree_if_exists dist0) = []
   \<and> main cfg lib data css_src dist0 = main cfg lib data css_src None"
proof -
  have r: "rmtree_if_exists dist0 = rmtree_if_exists None"
    by (simp add: rmtree_if_exists_def split: option.splits)
  have "mkdir_static (rmtree_if_exists None) = []"
    by (simp add: mkdir_static_def rmtree_if_exists_def)
  then show ?thesis unfolding main_def r by simp
qed

end
